theory Spec2Isabelle
  imports Main "HOL-Library.Word"
begin

section \<open>Record manager: data model\<close>

text \<open>
  The model follows \<^verbatim>\<open>record_mgr.c\<close>. C \<^verbatim>\<open>int\<close> values are kept as \<^typ>\<open>int\<close>
  (no claim depends on 32-bit overflow of a counter); the bytes of pages and of record
  payloads are \<^typ>\<open>8 word\<close>.

  The headers (\<^verbatim>\<open>record_mgr.h\<close>, \<^verbatim>\<open>tables.h\<close>, \<^verbatim>\<open>dberror.h\<close>, \<^verbatim>\<open>storage_mgr.h\<close>,
  \<^verbatim>\<open>buffer_mgr.h\<close>) are not among the sources. The compile-time constant
  \<^verbatim>\<open>PAGE_SIZE\<close> is therefore a parameter of every function that uses it. The two
  structs that are cast onto page bytes are laid out as the usual ABIs lay out
  \<^verbatim>\<open>(int, bool)\<close> and \<^verbatim>\<open>(int, bool, int, int)\<close>: 4-byte little-endian
  \<^verbatim>\<open>int\<close>, 1-byte \<^verbatim>\<open>bool\<close>, natural alignment.

  Allocation never fails in the model, and the calls into the storage manager and the
  buffer manager always succeed: the branches of the source that only pass such a failure
  on to the caller have no counterpart here. Names are the source's, except the field
  \<^verbatim>\<open>id\<close> of \<^verbatim>\<open>Record\<close> and the function \<^verbatim>\<open>next\<close>, which are \<open>id'\<close> and \<open>next'\<close>.
\<close>

type_synonym byte = "8 word"

datatype RC =
    RC_OK
  | RC_INVALID_INPUT
  | RC_RM_INVALID_RID
  | RC_RM_RECORD_NOT_FOUND
  | RC_RM_NO_MORE_TUPLES
  | RC_RM_INVALID_ATTRIBUTE
  | RC_RM_ATTRIBUTE_TYPE_MISMATCH
  | RC_RM_DATA_TYPE_ERROR

text \<open>
  What the C program does when it dereferences a pointer that is \<^verbatim>\<open>NULL\<close> or that
  points to released memory is undefined; the model stops there with a fault. The same
  holds where it writes outside an allocated object: a \<^verbatim>\<open>memcpy\<close> that runs past the end
  of the one-page buffer it fills, and a store into an entry of the directory array that
  the array does not have. An entry that is only read at an index the array does not
  have is an unspecified entry: the theorems are about tables whose array has an entry
  for every data page, or hold whatever that entry is.
\<close>

datatype fault = NullDeref | UseAfterFree | OutOfBounds

datatype 'a ptr = Null | Live 'a | Freed

fun isNull :: "'a ptr \<Rightarrow> bool" where
  "isNull Null = True"
| "isNull (Live x) = False"
| "isNull Freed = False"

datatype DataType = DT_INT | DT_STRING | DT_FLOAT | DT_BOOL

record Schema =
  numAttr :: int
  attrNames :: "string list"
  dataTypes :: "DataType list"
  typeLength :: "int list"
  keySize :: int
  keyAttrs :: "int list"

record RID =
  page :: int
  slot :: int

text \<open>\<^verbatim>\<open>Record.data\<close> is a pointer to a buffer: \<open>None\<close> is \<^verbatim>\<open>NULL\<close>.\<close>

record Record =
  id' :: RID
  data :: "byte list option"

text \<open>
  \<^verbatim>\<open>Value\<close> is a tag with a union. \<open>VInt\<close> and \<open>VFloat\<close> carry the 32-bit object
  representation of the member, so a \<^verbatim>\<open>float\<close> is its bit pattern. \<open>VString\<close> carries
  the bytes of the buffer that \<^verbatim>\<open>stringV\<close> points to; the C string is what precedes
  the first zero byte.
\<close>

datatype Value = VInt "32 word" | VString "byte list" | VFloat "32 word" | VBool bool

fun dt :: "Value \<Rightarrow> DataType" where
  "dt (VInt _) = DT_INT"
| "dt (VString _) = DT_STRING"
| "dt (VFloat _) = DT_FLOAT"
| "dt (VBool _) = DT_BOOL"

subsection \<open>Bytes of the C objects\<close>

definition int_bytes :: "int \<Rightarrow> byte list" where
  "int_bytes n = [word_of_int n, word_of_int (n div 256),
                  word_of_int (n div 65536), word_of_int (n div 16777216)]"

definition bytes_int :: "byte list \<Rightarrow> int" where
  "bytes_int bs =
     (let u = uint (bs ! 0) + 256 * uint (bs ! 1) + 65536 * uint (bs ! 2)
              + 16777216 * uint (bs ! 3)
      in if u < 2147483648 then u else u - 4294967296)"

definition bool_byte :: "bool \<Rightarrow> byte" where
  "bool_byte b = (if b then 1 else 0)"

definition byte_bool :: "byte \<Rightarrow> bool" where
  "byte_bool b = (b \<noteq> 0)"

text \<open>\<^verbatim>\<open>memcpy(buf + off, src, length src)\<close> into a buffer held as a list.\<close>

definition memcpy_at :: "byte list \<Rightarrow> int \<Rightarrow> byte list \<Rightarrow> byte list" where
  "memcpy_at buf off src = take (nat off) buf @ src @ drop (nat off + length src) buf"

text \<open>
  \<^verbatim>\<open>strncpy(dst, src, n)\<close>: the bytes of \<open>src\<close> before its first zero byte, at most
  \<open>n\<close> of them, then zero bytes up to \<open>n\<close>. The result is the \<open>n\<close> bytes written.
\<close>

definition strncpy :: "byte list \<Rightarrow> int \<Rightarrow> byte list" where
  "strncpy src n =
     (let c = take (nat n) (takeWhile (\<lambda>b. b \<noteq> 0) src)
      in c @ replicate (nat n - length c) 0)"

subsection \<open>Record size and attribute offsets\<close>

fun attrSize :: "DataType \<Rightarrow> int \<Rightarrow> int" where
  "attrSize DT_INT len = 4"
| "attrSize DT_FLOAT len = 4"
| "attrSize DT_BOOL len = 1"
| "attrSize DT_STRING len = len"

text \<open>The loop \<^verbatim>\<open>for (i = 0; i < n; i++) size += ...\<close> over the first \<open>n\<close> attributes.\<close>

definition sumAttrSizes :: "Schema \<Rightarrow> int \<Rightarrow> int" where
  "sumAttrSizes schema n =
     (\<Sum>i\<leftarrow>[0..<nat n]. attrSize (dataTypes schema ! i) (typeLength schema ! i))"

definition computeRecordSize :: "Schema \<Rightarrow> int" where
  "computeRecordSize schema = sumAttrSizes schema (numAttr schema)"

definition getRecordSize :: "Schema \<Rightarrow> int" where
  "getRecordSize schema = computeRecordSize schema"

definition calculateAttributeOffset :: "Schema \<Rightarrow> int \<Rightarrow> int" where
  "calculateAttributeOffset schema attrIdx = sumAttrSizes schema attrIdx"

subsection \<open>Attribute setter and getter\<close>

definition setAttr :: "Record \<Rightarrow> Schema \<Rightarrow> int \<Rightarrow> Value \<Rightarrow> fault + (RC \<times> Record)" where
  "setAttr record schema attrNum val =
     (if attrNum < 0 \<or> attrNum \<ge> numAttr schema then Inr (RC_RM_INVALID_ATTRIBUTE, record)
      else if dt val \<noteq> dataTypes schema ! nat attrNum
        then Inr (RC_RM_ATTRIBUTE_TYPE_MISMATCH, record)
      else
        let offset = calculateAttributeOffset schema attrNum in
        case data record of
          None \<Rightarrow> Inl NullDeref
        | Some d \<Rightarrow>
            (case val of
               VInt w \<Rightarrow> Inr (RC_OK, record\<lparr>data := Some (memcpy_at d offset (int_bytes (sint w)))\<rparr>)
             | VFloat w \<Rightarrow> Inr (RC_OK, record\<lparr>data := Some (memcpy_at d offset (int_bytes (sint w)))\<rparr>)
             | VBool b \<Rightarrow> Inr (RC_OK, record\<lparr>data := Some (memcpy_at d offset [bool_byte b])\<rparr>)
             | VString s \<Rightarrow>
                 Inr (RC_OK, record\<lparr>data := Some (memcpy_at d offset
                                (strncpy s (typeLength schema ! nat attrNum)))\<rparr>)))"

definition getAttr :: "Record \<Rightarrow> Schema \<Rightarrow> int \<Rightarrow> fault + (RC \<times> Value option)" where
  "getAttr record schema attrNum =
     (if attrNum < 0 \<or> attrNum \<ge> numAttr schema then Inr (RC_RM_INVALID_ATTRIBUTE, None)
      else
        let offset = calculateAttributeOffset schema attrNum in
        case data record of
          None \<Rightarrow> Inl NullDeref
        | Some d \<Rightarrow>
            (case dataTypes schema ! nat attrNum of
               DT_INT \<Rightarrow> Inr (RC_OK, Some (VInt (word_of_int (bytes_int (take 4 (drop (nat offset) d))))))
             | DT_FLOAT \<Rightarrow> Inr (RC_OK, Some (VFloat (word_of_int (bytes_int (take 4 (drop (nat offset) d))))))
             | DT_BOOL \<Rightarrow> Inr (RC_OK, Some (VBool (byte_bool (d ! nat offset))))
             | DT_STRING \<Rightarrow>
                 Inr (RC_OK, Some (VString
                   (strncpy (drop (nat offset) d) (typeLength schema ! nat attrNum) @ [0])))))"


subsection \<open>Values as the specification describes a stored string\<close>

text \<open>The C string held in a buffer: the bytes before the first zero byte.\<close>

definition cstring :: "byte list \<Rightarrow> byte list" where
  "cstring buf = takeWhile (\<lambda>b. b \<noteq> 0) buf"

text \<open>A string truncated or zero-padded to exactly \<open>n\<close> characters.\<close>

definition truncate_or_pad :: "byte list \<Rightarrow> nat \<Rightarrow> byte list" where
  "truncate_or_pad c n =
     (if n \<le> length c then take n c else c @ replicate (n - length c) 0)"

section \<open>Pages, slots and the page directory\<close>

text \<open>
  A page frame is a store of bytes, addressed from the start of the frame. Record
  payloads and slot entries live in the same store, as they do in the
  \<^verbatim>\<open>char *pageData\<close> that the source casts. The store is kept as the list of the
  writes made into a zeroed frame, the latest first: the byte at an address is the one
  that the latest write covering the address put there, and zero when no write covers it.
\<close>

type_synonym pagebytes = "(int \<times> byte list) list"

definition zeroPage :: pagebytes where
  "zeroPage = []"

fun readByte :: "pagebytes \<Rightarrow> int \<Rightarrow> byte" where
  "readByte [] a = 0"
| "readByte (w # ws) a =
     (if fst w \<le> a \<and> a < fst w + int (length (snd w)) then snd w ! nat (a - fst w)
      else readByte ws a)"

fun readBytesFrom :: "pagebytes \<Rightarrow> int \<Rightarrow> nat \<Rightarrow> byte list" where
  "readBytesFrom pg a 0 = []"
| "readBytesFrom pg a (Suc n) = readByte pg a # readBytesFrom pg (a + 1) n"

text \<open>\<open>n\<close> bytes from address \<open>off\<close> on, and \<^verbatim>\<open>memcpy\<close> of \<open>bs\<close> to address \<open>off\<close>.\<close>

definition readBytes :: "pagebytes \<Rightarrow> int \<Rightarrow> int \<Rightarrow> byte list" where
  "readBytes pg off n = readBytesFrom pg off (nat n)"

definition writeBytes :: "pagebytes \<Rightarrow> int \<Rightarrow> byte list \<Rightarrow> pagebytes" where
  "writeBytes pg off bs = (off, bs) # pg"

text \<open>
  The block of \<open>PAGE_SIZE\<close> bytes that a buffer starts with: of every write, the part
  that lies at the addresses from 0 up to \<open>PAGE_SIZE\<close>.
\<close>

fun clip :: "int \<Rightarrow> pagebytes \<Rightarrow> pagebytes" where
  "clip PAGE_SIZE [] = []"
| "clip PAGE_SIZE (w # ws) =
     (max (fst w) 0,
      take (nat (PAGE_SIZE - max (fst w) 0)) (drop (nat (- fst w)) (snd w)))
     # clip PAGE_SIZE ws"

record SlotDirectoryEntry =
  offset :: int
  isFree :: bool

definition sizeof_SlotDirectoryEntry :: int where
  "sizeof_SlotDirectoryEntry = 8"

text \<open>\<^verbatim>\<open>(SlotDirectoryEntry *)(pageData + i * sizeof(SlotDirectoryEntry))\<close>, read.\<close>

definition readSlot :: "pagebytes \<Rightarrow> int \<Rightarrow> SlotDirectoryEntry" where
  "readSlot pg i =
     \<lparr>offset = bytes_int (readBytes pg (i * sizeof_SlotDirectoryEntry) 4),
      isFree = byte_bool (readByte pg (i * sizeof_SlotDirectoryEntry + 4))\<rparr>"

definition writeSlotOffset :: "pagebytes \<Rightarrow> int \<Rightarrow> int \<Rightarrow> pagebytes" where
  "writeSlotOffset pg i v = writeBytes pg (i * sizeof_SlotDirectoryEntry) (int_bytes v)"

definition writeSlotIsFree :: "pagebytes \<Rightarrow> int \<Rightarrow> bool \<Rightarrow> pagebytes" where
  "writeSlotIsFree pg i b = writeBytes pg (i * sizeof_SlotDirectoryEntry + 4) [bool_byte b]"

record PageDirectoryEntry =
  pageID :: int
  hasFreeSlot :: bool
  freeSpace :: int
  recordCount :: int

definition sizeof_PageDirectoryEntry :: int where
  "sizeof_PageDirectoryEntry = 16"

definition entryBytes :: "PageDirectoryEntry \<Rightarrow> byte list" where
  "entryBytes e = int_bytes (pageID e) @ [bool_byte (hasFreeSlot e), 0, 0, 0]
                  @ int_bytes (freeSpace e) @ int_bytes (recordCount e)"

definition bytesEntry :: "byte list \<Rightarrow> PageDirectoryEntry" where
  "bytesEntry bs =
     \<lparr>pageID = bytes_int (take 4 bs),
      hasFreeSlot = byte_bool (bs ! 4),
      freeSpace = bytes_int (take 4 (drop 8 bs)),
      recordCount = bytes_int (take 4 (drop 12 bs))\<rparr>"

definition initPageDirectoryEntry :: "int \<Rightarrow> int \<Rightarrow> PageDirectoryEntry" where
  "initPageDirectoryEntry PAGE_SIZE pageId =
     \<lparr>pageID = pageId, hasFreeSlot = True, freeSpace = PAGE_SIZE, recordCount = 0\<rparr>"

text \<open>
  C division truncates towards zero. \<^verbatim>\<open>size_t\<close> is taken to be 64 bits wide: a
  comparison of an \<^verbatim>\<open>int\<close> with a \<^verbatim>\<open>size_t\<close> is made on the values modulo \<open>2^64\<close>.
\<close>

definition c_div :: "int \<Rightarrow> int \<Rightarrow> int" where
  "c_div a b = (if (a < 0) = (b < 0) then \<bar>a\<bar> div \<bar>b\<bar> else - (\<bar>a\<bar> div \<bar>b\<bar>))"

definition as_size_t :: "int \<Rightarrow> int" where
  "as_size_t x = x mod 18446744073709551616"

text \<open>
  \<^verbatim>\<open>(PAGE_SIZE - 2 * sizeof(int)) / sizeof(PageDirectoryEntry)\<close>, for a page that
  holds at least the two header integers.
\<close>

definition maxEntriesPerPage :: "int \<Rightarrow> int" where
  "maxEntriesPerPage PAGE_SIZE = c_div (PAGE_SIZE - 2 * 4) sizeof_PageDirectoryEntry"

definition ceilDivision :: "int \<Rightarrow> int \<Rightarrow> int" where
  "ceilDivision numerator denominator = c_div (numerator + denominator - 1) denominator"

section \<open>Storage manager and buffer manager\<close>

text \<open>
  Modelled from the spec: the page-file storage manager and the buffer manager are
  collaborators whose code is not in the repository. The spec gives their interface:
  a file is an ordered sequence of fixed-size blocks; \<^verbatim>\<open>pinPage\<close> hands out a
  \<open>PAGE_SIZE\<close> byte frame caching a block, \<^verbatim>\<open>markDirty\<close> flags it, and dirty frames are
  written back (here: at \<^verbatim>\<open>shutdownBufferPool\<close>; no frame is evicted before).
  \<^verbatim>\<open>writeBlock\<close> writes a block of the file directly, past the pool. Every call succeeds;
  a block that was never written reads as zero bytes, so \<^verbatim>\<open>appendEmptyBlock\<close> changes
  no block content. Block 0 is written once, by \<^verbatim>\<open>createTable\<close>, and is kept as the
  schema it serialises. The blocks written so far and the frames cached so far are kept
  as lists of numbered entries.
\<close>

fun store :: "int \<Rightarrow> 'a \<Rightarrow> (int \<times> 'a) list \<Rightarrow> (int \<times> 'a) list" where
  "store k v [] = [(k, v)]"
| "store k v (e # es) = (if fst e = k then (k, v) # es else e # store k v es)"

record PageFile =
  schemaBlock :: Schema
  blocks :: "(int \<times> pagebytes) list"

type_synonym BM_BufferPool = "(int \<times> pagebytes \<times> bool) list"

definition readBlock :: "PageFile \<Rightarrow> int \<Rightarrow> pagebytes" where
  "readBlock f pageNum =
     (case map_of (blocks f) pageNum of Some pg \<Rightarrow> pg | None \<Rightarrow> zeroPage)"

definition writeBlock :: "int \<Rightarrow> int \<Rightarrow> pagebytes \<Rightarrow> PageFile \<Rightarrow> PageFile" where
  "writeBlock PAGE_SIZE pageNum buf f =
     f\<lparr>blocks := store pageNum (clip PAGE_SIZE buf) (blocks f)\<rparr>"

definition appendEmptyBlock :: "PageFile \<Rightarrow> PageFile" where
  "appendEmptyBlock f = f"

definition initBufferPool :: BM_BufferPool where
  "initBufferPool = []"

text \<open>The frame that \<^verbatim>\<open>pinPage\<close> hands out, and the pool once the block is cached.\<close>

definition pinPage :: "BM_BufferPool \<Rightarrow> PageFile \<Rightarrow> int \<Rightarrow> BM_BufferPool \<times> pagebytes" where
  "pinPage pool f pageNum =
     (case map_of pool pageNum of
        Some fr \<Rightarrow> (pool, fst fr)
      | None \<Rightarrow> (store pageNum (readBlock f pageNum, False) pool, readBlock f pageNum))"

text \<open>The pinned frame after the caller has changed its bytes and called \<^verbatim>\<open>markDirty\<close>.\<close>

definition markDirty :: "BM_BufferPool \<Rightarrow> int \<Rightarrow> pagebytes \<Rightarrow> BM_BufferPool" where
  "markDirty pool pageNum pg = store pageNum (pg, True) pool"

fun flushFrames :: "BM_BufferPool \<Rightarrow> (int \<times> pagebytes) list \<Rightarrow> (int \<times> pagebytes) list" where
  "flushFrames [] bl = bl"
| "flushFrames (fr # frs) bl =
     flushFrames frs (if snd (snd fr) then store (fst fr) (fst (snd fr)) bl else bl)"

definition shutdownBufferPool :: "BM_BufferPool \<Rightarrow> PageFile \<Rightarrow> PageFile" where
  "shutdownBufferPool pool f = f\<lparr>blocks := flushFrames pool (blocks f)\<rparr>"

section \<open>Table handle\<close>

record RM_managementData =
  numPages :: int
  numPageDP :: int
  pageDirectory :: "PageDirectoryEntry list"
  bm :: BM_BufferPool

text \<open>
  \<open>name\<close> stands for the page file that \<^verbatim>\<open>rel->name\<close> designates: the model keeps the
  file itself in that field. \<open>schema\<close> and \<open>managementData\<close> are the two owning pointers.
\<close>

record RM_TableData =
  name :: PageFile
  schema :: "Schema ptr"
  managementData :: "RM_managementData ptr"

text \<open>\<^verbatim>\<open>numPages - numPageDP + 1\<close>, the bound of every loop over data pages.\<close>

definition numDataPages :: "RM_managementData \<Rightarrow> int" where
  "numDataPages m = numPages m - numPageDP m + 1"

text \<open>
  The block that \<^verbatim>\<open>insertRecord\<close>, \<^verbatim>\<open>deleteRecord\<close>, \<^verbatim>\<open>updateRecord\<close> and
  \<^verbatim>\<open>getRecord\<close> pin for data page \<open>p\<close>: \<^verbatim>\<open>p + numPageDP + 1\<close>.
\<close>

definition dataPageNum :: "RM_managementData \<Rightarrow> int \<Rightarrow> int" where
  "dataPageNum m p = p + numPageDP m + 1"

text \<open>
  The block that \<^verbatim>\<open>next\<close> pins for data page \<open>p\<close>:
  \<^verbatim>\<open>ceilDivision(p + 1, maxEntriesPerPage) + 1 + p\<close>.
\<close>

definition scanPageNum :: "int \<Rightarrow> int \<Rightarrow> int" where
  "scanPageNum PAGE_SIZE p = ceilDivision (p + 1) (maxEntriesPerPage PAGE_SIZE) + 1 + p"


section \<open>Page directory on disk\<close>

text \<open>
  \<^verbatim>\<open>savePageDirectoryToDisk\<close> copies the header and \<open>numPages - numPageDP + 1\<close> entries
  into one zeroed buffer of \<open>PAGE_SIZE\<close> bytes and writes that buffer to one block. The
  source does not bound the copy of the entries: it is a \<^verbatim>\<open>memcpy\<close> of
  \<^verbatim>\<open>numEntries * sizeof(PageDirectoryEntry)\<close> bytes, a \<^verbatim>\<open>size_t\<close>, to offset 8 of the
  buffer. When these bytes do not fit into the buffer the copy writes past its end, which
  is a fault.
\<close>

definition savePageDirectoryToDisk ::
    "int \<Rightarrow> RM_managementData \<Rightarrow> PageFile \<Rightarrow> fault + PageFile" where
  "savePageDirectoryToDisk PAGE_SIZE m f =
     (let maxEntries = maxEntriesPerPage PAGE_SIZE;
          p0 = writeBytes zeroPage 0 (int_bytes (numPages m));
          p1 = writeBytes p0 4 (int_bytes (numPageDP m));
          numEntries = numPages m - numPageDP m + 1;
          p2 = writeBytes p1 8 (concat (map entryBytes (take (nat numEntries) (pageDirectory m))));
          blockToWrite = c_div (numPages m) maxEntries * maxEntries + numPageDP m
      in if 8 + as_size_t (numEntries * sizeof_PageDirectoryEntry) > PAGE_SIZE
         then Inl OutOfBounds
         else Inr (writeBlock PAGE_SIZE blockToWrite p2 f))"

text \<open>
  \<^verbatim>\<open>loadPageDirectoryFromDisk\<close> pins page 1 and reads the header and the entries from
  it. The buffer pool is the freshly initialised one.
\<close>

fun readEntries :: "pagebytes \<Rightarrow> int \<Rightarrow> nat \<Rightarrow> PageDirectoryEntry list" where
  "readEntries directoryData position 0 = []"
| "readEntries directoryData position (Suc n) =
     bytesEntry (readBytes directoryData position sizeof_PageDirectoryEntry)
     # readEntries directoryData (position + sizeof_PageDirectoryEntry) n"

definition loadPageDirectoryFromDisk :: "BM_BufferPool \<Rightarrow> PageFile \<Rightarrow> RM_managementData" where
  "loadPageDirectoryFromDisk pool f =
     (let (pool', directoryData) = pinPage pool f 1;
          np = bytes_int (readBytes directoryData 0 4);
          dp = bytes_int (readBytes directoryData 4 4);
          numEntries = np - dp + 1
      in \<lparr>numPages = np, numPageDP = dp,
          pageDirectory = readEntries directoryData 8 (nat numEntries),
          bm = pool'\<rparr>)"

section \<open>Table operations\<close>

text \<open>The loop that writes the attribute names into the schema page.\<close>

fun writeAttrNames :: "int \<Rightarrow> int \<Rightarrow> string list \<Rightarrow> int option" where
  "writeAttrNames PAGE_SIZE position [] = Some position"
| "writeAttrNames PAGE_SIZE position (n # ns) =
     (let nameLen = int (length n) + 1
      in if position + nameLen > PAGE_SIZE then None
         else writeAttrNames PAGE_SIZE (position + nameLen) ns)"

text \<open>
  The writes into the schema page are each guarded by a check against \<open>PAGE_SIZE\<close>. The
  writes of the header and of the first entry into the directory page are not: in a page
  too small for them the copy of the entry runs past the end of the buffer.
\<close>

datatype RC_create = RC_CREATED PageFile | RC_PAGE_FULL

definition createTable :: "int \<Rightarrow> Schema \<Rightarrow> fault + RC_create" where
  "createTable PAGE_SIZE sch =
     (if 0 + 4 > PAGE_SIZE then Inr RC_PAGE_FULL
      else case writeAttrNames PAGE_SIZE 4 (take (nat (numAttr sch)) (attrNames sch)) of
        None \<Rightarrow> Inr RC_PAGE_FULL
      | Some p1 \<Rightarrow>
          if p1 + numAttr sch * 4 > PAGE_SIZE then Inr RC_PAGE_FULL
          else if p1 + numAttr sch * 4 + numAttr sch * 4 > PAGE_SIZE then Inr RC_PAGE_FULL
          else if p1 + numAttr sch * 4 + numAttr sch * 4 + 4 + keySize sch * 4 > PAGE_SIZE
            then Inr RC_PAGE_FULL
          else
            let totalPages = 1;
                directoryPages = 1;
                d0 = writeBytes zeroPage 0 (int_bytes totalPages);
                d1 = writeBytes d0 4 (int_bytes directoryPages);
                firstPage = initPageDirectoryEntry PAGE_SIZE 0;
                d2 = writeBytes d1 8 (entryBytes firstPage)
            in if 8 + sizeof_PageDirectoryEntry > PAGE_SIZE then Inl OutOfBounds
               else Inr (RC_CREATED (writeBlock PAGE_SIZE 1 d2
                      \<lparr>schemaBlock = sch, blocks = []\<rparr>)))"

definition openTable :: "PageFile \<Rightarrow> RC \<times> RM_TableData" where
  "openTable f =
     (RC_OK, \<lparr>name = f, schema = Live (schemaBlock f),
              managementData = Live (loadPageDirectoryFromDisk initBufferPool f)\<rparr>)"

text \<open>
  \<^verbatim>\<open>closeTable\<close> returns early when one of the two pointers is \<^verbatim>\<open>NULL\<close>. Otherwise it
  reads through both and releases what they point to; it stores nothing back into
  \<^verbatim>\<open>rel\<close>, so both pointers are left pointing at released memory.
\<close>

definition closeTable :: "RM_TableData \<Rightarrow> fault + (RC \<times> RM_TableData)" where
  "closeTable rel =
     (if isNull (managementData rel) \<or> isNull (schema rel) then Inr (RC_OK, rel)
      else case schema rel of
        Null \<Rightarrow> Inr (RC_OK, rel)
      | Freed \<Rightarrow> Inl UseAfterFree
      | Live sch \<Rightarrow>
          (case managementData rel of
             Null \<Rightarrow> Inr (RC_OK, rel)
           | Freed \<Rightarrow> Inl UseAfterFree
           | Live m \<Rightarrow>
               Inr (RC_OK, rel\<lparr>name := shutdownBufferPool (bm m) (name rel),
                                schema := Freed, managementData := Freed\<rparr>)))"

definition getNumTuples :: "RM_TableData \<Rightarrow> fault + int" where
  "getNumTuples rel =
     (case managementData rel of
        Null \<Rightarrow> Inr 0
      | Freed \<Rightarrow> Inl UseAfterFree
      | Live m \<Rightarrow>
          Inr (\<Sum>i\<leftarrow>[0..<nat (numPages m - numPageDP m + 1)]. recordCount (pageDirectory m ! i)))"

section \<open>Record operations\<close>

function findFreePageLoop :: "PageDirectoryEntry list \<Rightarrow> int \<Rightarrow> int \<Rightarrow> int" where
  "findFreePageLoop pd n i =
     (if i < n then (if hasFreeSlot (pd ! nat i) then i else findFreePageLoop pd n (i + 1))
      else - 1)"
  by pat_completeness auto
termination
  by (relation "measure (\<lambda>(pd, n, i). nat (n - i))") auto

declare findFreePageLoop.simps [simp del]

definition findFreePageIndex :: "RM_managementData \<Rightarrow> int" where
  "findFreePageIndex m = findFreePageLoop (pageDirectory m) (numPages m - numPageDP m + 1) 0"

function locateFreeSlotLoop :: "pagebytes \<Rightarrow> int \<Rightarrow> int \<Rightarrow> int" where
  "locateFreeSlotLoop pageData rcount i =
     (if i < rcount then (if isFree (readSlot pageData i) then i
                          else locateFreeSlotLoop pageData rcount (i + 1))
      else - 1)"
  by pat_completeness auto
termination
  by (relation "measure (\<lambda>(pageData, rcount, i). nat (rcount - i))") auto

declare locateFreeSlotLoop.simps [simp del]

definition locateFreeSlot :: "pagebytes \<Rightarrow> int \<Rightarrow> int" where
  "locateFreeSlot pageData rcount = locateFreeSlotLoop pageData rcount 0"

text \<open>
  The parameter \<^verbatim>\<open>recordAdded\<close> is not read by the body. The body stores into
  \<^verbatim>\<open>pageDirectory[pageIdx]\<close> without a check of \<open>pageIdx\<close>; the directory array has the
  entries of the list \<open>pageDirectory\<close>, and a store at another index is a fault.
\<close>

definition updatePageStatistics ::
    "Schema \<Rightarrow> RM_managementData \<Rightarrow> int \<Rightarrow> int \<Rightarrow> bool \<Rightarrow> fault + RM_managementData" where
  "updatePageStatistics sch m pageIdx spaceChange recordAdded =
     (if pageIdx < 0 \<or> int (length (pageDirectory m)) \<le> pageIdx then Inl OutOfBounds
      else
        let e = pageDirectory m ! nat pageIdx;
            fs = freeSpace e + spaceChange;
            recordSize = computeRecordSize sch;
            hasSpace = (as_size_t fs \<ge> as_size_t (recordSize + sizeof_SlotDirectoryEntry))
        in Inr (m\<lparr>pageDirectory :=
                  (pageDirectory m)[nat pageIdx := e\<lparr>freeSpace := fs, hasFreeSlot := hasSpace\<rparr>]\<rparr>))"

definition isValidRecordID :: "RID \<Rightarrow> int \<Rightarrow> bool" where
  "isValidRecordID rid totalPages = (page rid \<ge> 0 \<and> page rid < totalPages \<and> slot rid \<ge> 0)"

text \<open>\<^verbatim>\<open>realloc\<close> to \<open>n\<close> entries: the old entries are kept, a new one is not initialised.\<close>

definition realloc :: "PageDirectoryEntry list \<Rightarrow> int \<Rightarrow> PageDirectoryEntry list" where
  "realloc pd n =
     take (nat n) pd
     @ replicate (nat n - length pd)
         \<lparr>pageID = 0, hasFreeSlot = False, freeSpace = 0, recordCount = 0\<rparr>"

text \<open>The first part of \<^verbatim>\<open>insertRecord\<close>: a new directory page when the chain is full.\<close>

definition growDirectory ::
    "int \<Rightarrow> RM_managementData \<times> PageFile \<Rightarrow> RM_managementData \<times> PageFile" where
  "growDirectory PAGE_SIZE mf =
     (let (m, f) = mf;
          maxEntries = maxEntriesPerPage PAGE_SIZE;
          needNewDirectory = (numPages m > maxEntries * numPageDP m)
      in if needNewDirectory then
           let m1 = m\<lparr>numPages := numPages m + 1, numPageDP := numPageDP m + 1\<rparr>
           in (m1, writeBlock PAGE_SIZE (numPages m1) zeroPage (appendEmptyBlock f))
         else (m, f))"

text \<open>The second part: the page to insert into, a new data page when none has room.\<close>

definition choosePage ::
    "int \<Rightarrow> RM_managementData \<times> PageFile \<Rightarrow> RM_managementData \<times> PageFile \<times> int" where
  "choosePage PAGE_SIZE mf =
     (let (m, f) = mf;
          pageIndex = findFreePageIndex m
      in if pageIndex = - 1 then
           let pageIndex' = numPages m - numPageDP m + 1;
               m1 = m\<lparr>numPages := numPages m + 1\<rparr>;
               newSize = numPages m1 - numPageDP m1 + 1;
               newDirectory = realloc (pageDirectory m1) newSize;
               m2 = m1\<lparr>pageDirectory :=
                         newDirectory[nat pageIndex' :=
                           initPageDirectoryEntry PAGE_SIZE (numPages m1 - numPageDP m1)]\<rparr>
           in (m2, writeBlock PAGE_SIZE (numPages m2) zeroPage (appendEmptyBlock f), pageIndex')
         else (m, f, pageIndex))"

definition insertRecord ::
    "int \<Rightarrow> RM_TableData \<Rightarrow> Record \<Rightarrow> fault + (RC \<times> RM_TableData \<times> Record)" where
  "insertRecord PAGE_SIZE rel record =
     (case managementData rel of
        Null \<Rightarrow> Inr (RC_INVALID_INPUT, rel, record)
      | Freed \<Rightarrow> Inl UseAfterFree
      | Live m0 \<Rightarrow>
     (case schema rel of
        Null \<Rightarrow> Inl NullDeref
      | Freed \<Rightarrow> Inl UseAfterFree
      | Live sch \<Rightarrow>
     (case data record of
        None \<Rightarrow> Inl NullDeref
      | Some d \<Rightarrow>
          let recordSize = computeRecordSize sch;
              (m, f, pageIndex) = choosePage PAGE_SIZE (growDirectory PAGE_SIZE (m0, name rel));
              entry = pageDirectory m ! nat pageIndex;
              pageToPin = dataPageNum m (pageID entry);
              (pool, pageData) = pinPage (bm m) f pageToPin;
              found = locateFreeSlot pageData (recordCount entry);
              slotIndex = (if found = - 1 then recordCount entry else found);
              rcount = (if found = - 1 then recordCount entry + 1 else recordCount entry);
              m1 = m\<lparr>pageDirectory :=
                       (pageDirectory m)[nat pageIndex := entry\<lparr>recordCount := rcount\<rparr>]\<rparr>;
              recordOffset = PAGE_SIZE - rcount * recordSize;
              pg1 = writeSlotOffset pageData slotIndex recordOffset;
              pg2 = writeSlotIsFree pg1 slotIndex False;
              pg3 = writeBytes pg2 recordOffset (take (nat recordSize) d);
              record' = record\<lparr>id' := \<lparr>page = pageID entry, slot = slotIndex\<rparr>\<rparr>;
              spaceUsed = recordSize + sizeof_SlotDirectoryEntry
          in case updatePageStatistics sch m1 pageIndex (- spaceUsed) True of
               Inl flt \<Rightarrow> Inl flt
             | Inr m2 \<Rightarrow>
                 let m3 = m2\<lparr>bm := markDirty pool pageToPin pg3\<rparr>
                 in case savePageDirectoryToDisk PAGE_SIZE m3 f of
                      Inl flt \<Rightarrow> Inl flt
                    | Inr f' \<Rightarrow>
                        Inr (RC_OK, rel\<lparr>name := f', managementData := Live m3\<rparr>, record'))))"

definition deleteRecord :: "int \<Rightarrow> RM_TableData \<Rightarrow> RID \<Rightarrow> fault + (RC \<times> RM_TableData)" where
  "deleteRecord PAGE_SIZE rel rid =
     (case managementData rel of
        Null \<Rightarrow> Inr (RC_INVALID_INPUT, rel)
      | Freed \<Rightarrow> Inl UseAfterFree
      | Live m \<Rightarrow>
          if \<not> isValidRecordID rid (numPages m) then Inr (RC_RM_INVALID_RID, rel)
          else
            let pageNum = dataPageNum m (page rid);
                (pool, pageData) = pinPage (bm m) (name rel) pageNum
            in if isFree (readSlot pageData (slot rid))
               then Inr (RC_RM_RECORD_NOT_FOUND, rel\<lparr>managementData := Live (m\<lparr>bm := pool\<rparr>)\<rparr>)
               else
                 let pg1 = writeSlotIsFree pageData (slot rid) True;
                     pg2 = writeBytes pg1 (offset (readSlot pg1 (slot rid))) [253]
                 in case schema rel of
                      Null \<Rightarrow> Inl NullDeref
                    | Freed \<Rightarrow> Inl UseAfterFree
                    | Live sch \<Rightarrow>
                        let recordSize = computeRecordSize sch
                        in case updatePageStatistics sch m (page rid) recordSize False of
                             Inl flt \<Rightarrow> Inl flt
                           | Inr m1 \<Rightarrow>
                               let m2 = m1\<lparr>bm := markDirty pool pageNum pg2\<rparr>
                               in case savePageDirectoryToDisk PAGE_SIZE m2 (name rel) of
                                    Inl flt \<Rightarrow> Inl flt
                                  | Inr f' \<Rightarrow>
                                      Inr (RC_OK, rel\<lparr>name := f', managementData := Live m2\<rparr>))"

definition getRecord ::
    "RM_TableData \<Rightarrow> RID \<Rightarrow> Record \<Rightarrow> fault + (RC \<times> RM_TableData \<times> Record)" where
  "getRecord rel rid record =
     (case managementData rel of
        Null \<Rightarrow> Inr (RC_INVALID_INPUT, rel, record)
      | Freed \<Rightarrow> Inl UseAfterFree
      | Live m \<Rightarrow>
          if \<not> isValidRecordID rid (numPages m) then Inr (RC_RM_INVALID_RID, rel, record)
          else
            let pageNum = dataPageNum m (page rid);
                (pool, pageData) = pinPage (bm m) (name rel) pageNum;
                slotEntry = readSlot pageData (slot rid);
                rel' = rel\<lparr>managementData := Live (m\<lparr>bm := pool\<rparr>)\<rparr>
            in if isFree slotEntry then Inr (RC_RM_RECORD_NOT_FOUND, rel', record)
               else case schema rel of
                      Null \<Rightarrow> Inl NullDeref
                    | Freed \<Rightarrow> Inl UseAfterFree
                    | Live sch \<Rightarrow>
                        let recordSize = computeRecordSize sch;
                            buf = (case data record of None \<Rightarrow> [] | Some d \<Rightarrow> d)
                        in Inr (RC_OK, rel',
                                \<lparr>id' = rid,
                                 data = Some (readBytes pageData (offset slotEntry) recordSize
                                              @ drop (nat recordSize) buf)\<rparr>))"

definition updateRecord ::
    "int \<Rightarrow> RM_TableData \<Rightarrow> Record \<Rightarrow> fault + (RC \<times> RM_TableData \<times> Record)" where
  "updateRecord PAGE_SIZE rel record =
     (case managementData rel of
        Null \<Rightarrow> Inr (RC_INVALID_INPUT, rel, record)
      | Freed \<Rightarrow> Inl UseAfterFree
      | Live m \<Rightarrow>
          if \<not> isValidRecordID (id' record) (numPages m)
          then Inr (RC_RM_INVALID_RID, rel, record)
          else
            let pageNum = dataPageNum m (page (id' record));
                (pool, pageBuffer) = pinPage (bm m) (name rel) pageNum;
                slotInfo = readSlot pageBuffer (slot (id' record));
                rel' = rel\<lparr>managementData := Live (m\<lparr>bm := pool\<rparr>)\<rparr>
            in if isFree slotInfo then Inr (RC_RM_RECORD_NOT_FOUND, rel', record)
               else case schema rel of
                      Null \<Rightarrow> Inl NullDeref
                    | Freed \<Rightarrow> Inl UseAfterFree
                    | Live sch \<Rightarrow>
                        let requiredSize = computeRecordSize sch;
                            spaceAvailable =
                              freeSpace (pageDirectory m ! nat (page (id' record)))
                              + (offset slotInfo
                                 - slot (id' record) * sizeof_SlotDirectoryEntry)
                        in if requiredSize > spaceAvailable then
                             (case deleteRecord PAGE_SIZE rel' (id' record) of
                                Inl flt \<Rightarrow> Inl flt
                              | Inr (result, rel1) \<Rightarrow>
                                  if result \<noteq> RC_OK then Inr (result, rel1, record)
                                  else insertRecord PAGE_SIZE rel1 record)
                           else
                             (case data record of
                                None \<Rightarrow> Inl NullDeref
                              | Some d \<Rightarrow>
                                  let pg = writeBytes pageBuffer (offset slotInfo)
                                             (take (nat requiredSize) d)
                                  in Inr (RC_OK,
                                          rel\<lparr>managementData :=
                                                Live (m\<lparr>bm := markDirty pool pageNum pg\<rparr>)\<rparr>,
                                          record)))"


section \<open>Scans\<close>

text \<open>
  The expression type and the evaluator \<^verbatim>\<open>evalExpr\<close> are collaborators. The evaluator
  is a parameter \<open>ev\<close> of the scan: \<open>ev record schema cond\<close> is the \<^verbatim>\<open>boolV\<close> member of
  the \<^verbatim>\<open>Value\<close> that \<^verbatim>\<open>evalExpr\<close> stores through its last argument, and \<open>None\<close> when it
  stores none, so that \<^verbatim>\<open>result\<close> keeps its initial \<^verbatim>\<open>NULL\<close>. A condition \<open>None\<close> is
  the \<^verbatim>\<open>NULL\<close> expression.
\<close>

type_synonym 'e evalExpr = "Record \<Rightarrow> Schema \<Rightarrow> 'e option \<Rightarrow> bool option"

record 'e ScanInfo =
  condition :: "'e option"
  currentPage :: int
  currentSlot :: int

record 'e RM_ScanHandle =
  mgmtData :: "'e ScanInfo ptr"

definition startScan :: "'e RM_ScanHandle \<Rightarrow> 'e option \<Rightarrow> RC \<times> 'e RM_ScanHandle" where
  "startScan scan cond =
     (RC_OK, scan\<lparr>mgmtData := Live \<lparr>condition = cond, currentPage = 0, currentSlot = 0\<rparr>\<rparr>)"

definition closeScan :: "'e RM_ScanHandle \<Rightarrow> fault + (RC \<times> 'e RM_ScanHandle)" where
  "closeScan scan =
     (case mgmtData scan of
        Null \<Rightarrow> Inr (RC_OK, scan)
      | Freed \<Rightarrow> Inl UseAfterFree
      | Live si \<Rightarrow> Inr (RC_OK, scan\<lparr>mgmtData := Null\<rparr>))"

text \<open>
  The inner loop of \<^verbatim>\<open>next\<close> over the slots of the pinned page. \<open>Hit s r\<close>: the
  condition was met, \<open>s\<close> is the slot to resume at; \<open>Miss r\<close>: the page is exhausted;
  \<open>Crash\<close>: \<^verbatim>\<open>result->v.boolV\<close> was read through a \<^verbatim>\<open>NULL\<close> \<^verbatim>\<open>result\<close>.
\<close>

datatype slotScan = Hit int Record | Miss Record | Crash

function scanSlots ::
    "'e evalExpr \<Rightarrow> Schema \<Rightarrow> 'e option \<Rightarrow> pagebytes \<Rightarrow> int \<Rightarrow> int \<Rightarrow> int \<Rightarrow> int
       \<Rightarrow> Record \<Rightarrow> slotScan" where
  "scanSlots ev sch cond pageData rcount recordSize cp cs record =
     (if cs < rcount then
        let slotEntry = readSlot pageData cs in
        if isFree slotEntry then
          scanSlots ev sch cond pageData rcount recordSize cp (cs + 1) record
        else
          let buf = (case data record of None \<Rightarrow> [] | Some d \<Rightarrow> d);
              record' = \<lparr>id' = \<lparr>page = cp, slot = cs\<rparr>,
                         data = Some (readBytes pageData (offset slotEntry) recordSize
                                      @ drop (nat recordSize) buf)\<rparr>
          in case ev record' sch cond of
               None \<Rightarrow> Crash
             | Some boolV \<Rightarrow>
                 let conditionMet = (boolV = True \<or> cond = None)
                 in if conditionMet then Hit (cs + 1) record'
                    else scanSlots ev sch cond pageData rcount recordSize cp (cs + 1) record'
      else Miss record)"
  by pat_completeness auto
termination
  by (relation "measure (\<lambda>(ev, sch, cond, pageData, rcount, recordSize, cp, cs, record).
                            nat (rcount - cs))") auto

declare scanSlots.simps [simp del]

text \<open>The outer loop of \<^verbatim>\<open>next\<close> over the data pages.\<close>

function scanPages ::
    "int \<Rightarrow> 'e evalExpr \<Rightarrow> Schema \<Rightarrow> 'e option \<Rightarrow> PageFile \<Rightarrow> PageDirectoryEntry list \<Rightarrow> int
       \<Rightarrow> BM_BufferPool \<Rightarrow> int \<Rightarrow> int \<Rightarrow> Record
       \<Rightarrow> fault + (RC \<times> BM_BufferPool \<times> int \<times> int \<times> Record)" where
  "scanPages PAGE_SIZE ev sch cond f pd n pool cp cs record =
     (if cp < n then
        let pageNum = scanPageNum PAGE_SIZE cp;
            (pool', pageData) = pinPage pool f pageNum
        in case scanSlots ev sch cond pageData (recordCount (pd ! nat cp))
                  (computeRecordSize sch) cp cs record of
             Crash \<Rightarrow> Inl NullDeref
           | Hit cs' record' \<Rightarrow> Inr (RC_OK, pool', cp, cs', record')
           | Miss record' \<Rightarrow> scanPages PAGE_SIZE ev sch cond f pd n pool' (cp + 1) 0 record'
      else Inr (RC_RM_NO_MORE_TUPLES, pool, cp, cs, record))"
  by pat_completeness auto
termination
  by (relation "measure (\<lambda>(PAGE_SIZE, ev, sch, cond, f, pd, n, pool, cp, cs, record).
                            nat (n - cp))") auto

declare scanPages.simps [simp del]

definition next' ::
    "int \<Rightarrow> 'e evalExpr \<Rightarrow> RM_TableData \<Rightarrow> 'e RM_ScanHandle \<Rightarrow> Record
       \<Rightarrow> fault + (RC \<times> RM_TableData \<times> 'e RM_ScanHandle \<times> Record)" where
  "next' PAGE_SIZE ev rel scan record =
     (case mgmtData scan of
        Null \<Rightarrow> Inr (RC_INVALID_INPUT, rel, scan, record)
      | Freed \<Rightarrow> Inl UseAfterFree
      | Live scanInfo \<Rightarrow>
     (case managementData rel of
        Null \<Rightarrow> Inl NullDeref
      | Freed \<Rightarrow> Inl UseAfterFree
      | Live m \<Rightarrow>
     (case schema rel of
        Null \<Rightarrow> Inl NullDeref
      | Freed \<Rightarrow> Inl UseAfterFree
      | Live sch \<Rightarrow>
          (case scanPages PAGE_SIZE ev sch (condition scanInfo) (name rel) (pageDirectory m)
                  (numPages m - numPageDP m + 1) (bm m)
                  (currentPage scanInfo) (currentSlot scanInfo) record of
             Inl flt \<Rightarrow> Inl flt
           | Inr (rc, pool, cp, cs, record') \<Rightarrow>
               Inr (rc, rel\<lparr>managementData := Live (m\<lparr>bm := pool\<rparr>)\<rparr>,
                    scan\<lparr>mgmtData := Live (scanInfo\<lparr>currentPage := cp, currentSlot := cs\<rparr>)\<rparr>,
                    record')))))"


section \<open>Clients\<close>

text \<open>
  A client that creates a table and opens it, one that issues record calls in order and
  goes on only while each call returns \<^verbatim>\<open>RC_OK\<close>, one that reads a record into a
  fresh \<^verbatim>\<open>Record\<close> with a \<^verbatim>\<open>NULL\<close> buffer, one that closes the table and opens its
  file again, and one that drives a scan to its end.
\<close>

definition createAndOpen :: "int \<Rightarrow> Schema \<Rightarrow> RM_TableData option" where
  "createAndOpen PAGE_SIZE sch =
     (case createTable PAGE_SIZE sch of
        Inr (RC_CREATED f) \<Rightarrow> Some (snd (openTable f))
      | _ \<Rightarrow> None)"

datatype call = Insert "byte list" | Delete RID | Update RID "byte list"

definition emptyRecord :: Record where
  "emptyRecord = \<lparr>id' = \<lparr>page = - 1, slot = - 1\<rparr>, data = None\<rparr>"

fun applyCall :: "int \<Rightarrow> RM_TableData \<Rightarrow> call \<Rightarrow> fault + (RC \<times> RM_TableData \<times> RID)" where
  "applyCall PAGE_SIZE rel (Insert d) =
     (case insertRecord PAGE_SIZE rel (emptyRecord\<lparr>data := Some d\<rparr>) of
        Inl flt \<Rightarrow> Inl flt
      | Inr (rc, rel', r) \<Rightarrow> Inr (rc, rel', id' r))"
| "applyCall PAGE_SIZE rel (Delete rid) =
     (case deleteRecord PAGE_SIZE rel rid of
        Inl flt \<Rightarrow> Inl flt
      | Inr (rc, rel') \<Rightarrow> Inr (rc, rel', rid))"
| "applyCall PAGE_SIZE rel (Update rid d) =
     (case updateRecord PAGE_SIZE rel \<lparr>id' = rid, data = Some d\<rparr> of
        Inl flt \<Rightarrow> Inl flt
      | Inr (rc, rel', r) \<Rightarrow> Inr (rc, rel', id' r))"

text \<open>The table after the calls and the record identifier each call reported.\<close>

fun runCalls :: "int \<Rightarrow> RM_TableData \<Rightarrow> call list \<Rightarrow> (RM_TableData \<times> RID list) option" where
  "runCalls PAGE_SIZE rel [] = Some (rel, [])"
| "runCalls PAGE_SIZE rel (c # cs) =
     (case applyCall PAGE_SIZE rel c of
        Inl flt \<Rightarrow> None
      | Inr (rc, rel', rid) \<Rightarrow>
          if rc = RC_OK then
            (case runCalls PAGE_SIZE rel' cs of
               None \<Rightarrow> None
             | Some (rel'', rids) \<Rightarrow> Some (rel'', rid # rids))
          else None)"

definition readRecord :: "RM_TableData \<Rightarrow> RID \<Rightarrow> (RC \<times> byte list option) option" where
  "readRecord rel rid =
     (case getRecord rel rid emptyRecord of
        Inl flt \<Rightarrow> None
      | Inr (rc, rel', r) \<Rightarrow> Some (rc, data r))"

definition closeAndReopen :: "RM_TableData \<Rightarrow> RM_TableData option" where
  "closeAndReopen rel =
     (case closeTable rel of
        Inl flt \<Rightarrow> None
      | Inr (rc, rel') \<Rightarrow> Some (snd (openTable (name rel'))))"


subsection \<open>Example tables\<close>

text \<open>The schema \<^verbatim>\<open>(id:INT, name:STRING[8])\<close>, and four records of its 12 bytes.\<close>

definition personSchema :: Schema where
  "personSchema = \<lparr>numAttr = 2, attrNames = [''id'', ''name''],
                   dataTypes = [DT_INT, DT_STRING], typeLength = [0, 8],
                   keySize = 1, keyAttrs = [0]\<rparr>"

definition person :: "byte \<Rightarrow> byte \<Rightarrow> byte list" where
  "person n c = [n, 0, 0, 0, c, 0, 0, 0, 0, 0, 0, 0]"

text \<open>A schema with one attribute \<^verbatim>\<open>s:STRING[16]\<close>, and records of its 16 bytes.\<close>

definition wideSchema :: Schema where
  "wideSchema = \<lparr>numAttr = 1, attrNames = [''s''], dataTypes = [DT_STRING],
                 typeLength = [16], keySize = 0, keyAttrs = []\<rparr>"

definition wide :: "byte \<Rightarrow> byte list" where
  "wide c = [c, 0, 0, 0, 0, 0, 0, 0, 0, 0, 0, 0, 0, 0, 0, 0]"


text \<open>
  The records that \<^verbatim>\<open>getRecord\<close> finds: the identifiers \<open>(p, s)\<close> with \<open>p\<close> a data
  page, \<open>s\<close> below the page's \<^verbatim>\<open>recordCount\<close>, and slot \<open>s\<close> not free in the block that
  \<^verbatim>\<open>getRecord\<close> pins for \<open>p\<close>.
\<close>

definition liveRIDs :: "RM_TableData \<Rightarrow> RID list" where
  "liveRIDs rel =
     (case managementData rel of
        Live m \<Rightarrow>
          concat (map (\<lambda>p. map (\<lambda>s. \<lparr>page = int p, slot = int s\<rparr>)
                              (filter (\<lambda>s. \<not> isFree (readSlot
                                          (snd (pinPage (bm m) (name rel) (dataPageNum m (int p))))
                                          (int s)))
                                 [0..<nat (recordCount (pageDirectory m ! p))]))
                      [0..<nat (numPages m - numPageDP m + 1)])
      | _ \<Rightarrow> [])"

text \<open>The counters of an open table.\<close>

definition counters :: "RM_TableData \<Rightarrow> (int \<times> int) option" where
  "counters rel =
     (case managementData rel of
        Live m \<Rightarrow> Some (numPages m, numPageDP m)
      | _ \<Rightarrow> None)"

text \<open>An evaluator that stores a \<^verbatim>\<open>Value\<close> with \<^verbatim>\<open>boolV = FALSE\<close> for every expression.\<close>

definition evalFalse :: "unit evalExpr" where
  "evalFalse record sch cond = Some False"

text \<open>
  An evaluator like one that reads its expression argument before anything else: it
  stores no \<^verbatim>\<open>Value\<close> for the \<^verbatim>\<open>NULL\<close> expression.
\<close>

definition evalNone :: "unit evalExpr" where
  "evalNone rcd sch cond = (case cond of None \<Rightarrow> None | Some e \<Rightarrow> Some False)"

text \<open>The table \<^verbatim>\<open>(id:INT, name:STRING[8])\<close> after one insert, with pages of 4096 bytes.\<close>

definition closedTable :: RM_TableData where
  "closedTable = \<lparr>name = \<lparr>schemaBlock = personSchema, blocks = []\<rparr>,
                   schema = Null, managementData = Null\<rparr>"

definition filledTable :: RM_TableData where
  "filledTable =
     (case createAndOpen 4096 personSchema of
        None \<Rightarrow> closedTable
      | Some rel \<Rightarrow>
          (case runCalls 4096 rel [Insert (person 1 97)] of
             None \<Rightarrow> closedTable
           | Some (rel', rids) \<Rightarrow> rel'))"


subsection \<open>Open tables\<close>

text \<open>
  The tables that a client can hold open: the one that \<^verbatim>\<open>openTable\<close> gives for a file
  that \<^verbatim>\<open>createTable\<close> has written; every table that a call of \<^verbatim>\<open>insertRecord\<close>,
  \<^verbatim>\<open>deleteRecord\<close> or \<^verbatim>\<open>updateRecord\<close> returns on such a table, whatever its return
  code; a table in which one more page has been pinned, which is all that \<^verbatim>\<open>getRecord\<close>
  and \<^verbatim>\<open>next\<close> change in a table; and the table that \<^verbatim>\<open>openTable\<close> gives after
  \<^verbatim>\<open>closeTable\<close>. A call that stops with a fault returns no table. \<open>PAGE_SIZE\<close> is an
  \<^verbatim>\<open>int\<close> of the C program: what is proved about open tables is proved for
  \<open>PAGE_SIZE < 2^31\<close>.
\<close>

inductive reachable :: "int \<Rightarrow> Schema \<Rightarrow> RM_TableData \<Rightarrow> bool"
  for PAGE_SIZE :: int and sch :: Schema where
  opened: "createTable PAGE_SIZE sch = Inr (RC_CREATED f) \<Longrightarrow>
             reachable PAGE_SIZE sch (snd (openTable f))"
| inserted: "reachable PAGE_SIZE sch rel \<Longrightarrow>
             insertRecord PAGE_SIZE rel r = Inr (rc, rel', r') \<Longrightarrow>
             reachable PAGE_SIZE sch rel'"
| deleted: "reachable PAGE_SIZE sch rel \<Longrightarrow>
             deleteRecord PAGE_SIZE rel rid = Inr (rc, rel') \<Longrightarrow>
             reachable PAGE_SIZE sch rel'"
| updated: "reachable PAGE_SIZE sch rel \<Longrightarrow>
             updateRecord PAGE_SIZE rel r = Inr (rc, rel', r') \<Longrightarrow>
             reachable PAGE_SIZE sch rel'"
| pinned: "reachable PAGE_SIZE sch rel \<Longrightarrow> managementData rel = Live m \<Longrightarrow>
             reachable PAGE_SIZE sch
               (rel\<lparr>managementData := Live (m\<lparr>bm := fst (pinPage (bm m) (name rel) k)\<rparr>)\<rparr>)"
| reopened: "reachable PAGE_SIZE sch rel \<Longrightarrow> closeTable rel = Inr (rc, rel') \<Longrightarrow>
             reachable PAGE_SIZE sch (snd (openTable (name rel')))"

subsection \<open>Well-formed tables\<close>






subsection \<open>Accesses inside the pinned frame\<close>





subsection \<open>The records ahead of a scan position\<close>



section \<open>Attribute values survive a set and a get\<close>

subsection \<open>Integers as four bytes\<close>

lemma split256: "(n::int) mod k + k * (n div k mod 256) = n mod (k * 256)"
  using zmod_zmult2_eq[of 256 n k] by (simp only: add.commute)

lemma word32_mod: "(word_of_int (x mod 4294967296) :: 32 word) = word_of_int x"
  using wi_bintr[of 32 x, where 'a=32] by (simp add: take_bit_eq_mod)

lemma uint_bytes_sum:
  "uint (word_of_int n :: byte) + 256 * uint (word_of_int (n div 256) :: byte)
     + 65536 * uint (word_of_int (n div 65536) :: byte)
     + 16777216 * uint (word_of_int (n div 16777216) :: byte) = n mod 4294967296"
proof -
  have a: "n mod 256 + 256 * (n div 256 mod 256) = n mod 65536"
    using split256[of n 256] by simp
  have b: "n mod 65536 + 65536 * (n div 65536 mod 256) = n mod 16777216"
    using split256[of n 65536] by simp
  have c: "n mod 16777216 + 16777216 * (n div 16777216 mod 256) = n mod 4294967296"
    using split256[of n 16777216] by simp
  have "uint (word_of_int n :: byte) = n mod 256"
       "uint (word_of_int (n div 256) :: byte) = n div 256 mod 256"
       "uint (word_of_int (n div 65536) :: byte) = n div 65536 mod 256"
       "uint (word_of_int (n div 16777216) :: byte) = n div 16777216 mod 256"
    by (simp_all add: uint_word_of_int)
  then show ?thesis using a b c by linarith
qed

lemma bytes_int_int_bytes_eq:
  "bytes_int (int_bytes n) =
     (if n mod 4294967296 < 2147483648 then n mod 4294967296
      else n mod 4294967296 - 4294967296)"
  unfolding bytes_int_def int_bytes_def Let_def
  by (simp only: nth_Cons_0 nth_Cons_Suc One_nat_def numeral_2_eq_2 numeral_3_eq_3
        uint_bytes_sum)


lemma word32_roundtrip: "word_of_int (bytes_int (int_bytes (sint w))) = (w :: 32 word)"
proof -
  have "(word_of_int (bytes_int (int_bytes (sint w))) :: 32 word)
          = word_of_int (sint w mod 4294967296)"
    by (simp add: bytes_int_int_bytes_eq)
  also have "\<dots> = word_of_int (sint w)" by (rule word32_mod)
  finally show ?thesis by simp
qed


lemma drop_memcpy_at:
  "0 \<le> off \<Longrightarrow> nat off + length src \<le> length buf \<Longrightarrow>
     drop (nat off) (memcpy_at buf off src) = src @ drop (nat off + length src) buf"
  by (simp add: memcpy_at_def)

lemma length_memcpy_at:
  "0 \<le> off \<Longrightarrow> nat off + length src \<le> length buf \<Longrightarrow>
     length (memcpy_at buf off src) = length buf"
  by (simp add: memcpy_at_def)

lemma length_strncpy: "length (strncpy src n) = nat n"
  by (simp add: strncpy_def Let_def)

lemma takeWhile_nonzero_pad:
  assumes "\<forall>b\<in>set c. b \<noteq> (0::byte)" "length c \<le> n"
  shows "take n (takeWhile (\<lambda>b. b \<noteq> 0) (c @ replicate (n - length c) 0 @ rest)) = c"
proof (cases "length c = n")
  case True
  then show ?thesis using assms by (simp add: takeWhile_append2)
next
  case False
  then obtain m where m: "n - length c = Suc m" using assms(2) by (cases "n - length c") auto
  show ?thesis using assms by (simp add: m takeWhile_append2)
qed

lemma strncpy_strncpy: "strncpy (strncpy src n @ rest) n = strncpy src n"
proof -
  define c where "c = take (nat n) (takeWhile (\<lambda>b. b \<noteq> 0) src)"
  have nz: "\<forall>b\<in>set c. b \<noteq> 0"
    unfolding c_def by (auto dest!: in_set_takeD set_takeWhileD)
  have len: "length c \<le> nat n" unfolding c_def by simp
  have s: "strncpy src n = c @ replicate (nat n - length c) 0"
    by (simp add: strncpy_def c_def Let_def)
  have "take (nat n) (takeWhile (\<lambda>b. b \<noteq> 0) (strncpy src n @ rest)) = c"
    unfolding s using takeWhile_nonzero_pad[OF nz len, of rest] by simp
  then show ?thesis
    unfolding s by (simp add: strncpy_def Let_def)
qed



subsection \<open>Attribute offsets stay inside the record\<close>

lemma strncpy_truncate_or_pad: "strncpy src n = truncate_or_pad (cstring src) (nat n)"
  by (simp add: strncpy_def truncate_or_pad_def cstring_def Let_def)

lemma length_truncate_or_pad: "length (truncate_or_pad c n) = n"
  by (simp add: truncate_or_pad_def)

lemma sumAttrSizes_Suc:
  assumes "0 \<le> k"
  shows "sumAttrSizes s (k + 1)
     = sumAttrSizes s k + attrSize (dataTypes s ! nat k) (typeLength s ! nat k)"
proof -
  have "nat (k + 1) = Suc (nat k)" using assms by simp
  then show ?thesis by (simp add: sumAttrSizes_def)
qed

lemma attrSize_nonneg: "0 \<le> len \<Longrightarrow> 0 \<le> attrSize t len"
  by (cases t) simp_all

lemma sum_upt_mono:
  fixes f :: "nat \<Rightarrow> int"
  assumes "\<And>i. i < a + j \<Longrightarrow> 0 \<le> f i"
  shows "(\<Sum>i\<leftarrow>[0..<a]. f i) \<le> (\<Sum>i\<leftarrow>[0..<a + j]. f i)"
  using assms
proof (induction j)
  case 0
  then show ?case by simp
next
  case (Suc j)
  have "(\<Sum>i\<leftarrow>[0..<a]. f i) \<le> (\<Sum>i\<leftarrow>[0..<a + j]. f i)"
    using Suc by simp
  moreover have "0 \<le> f (a + j)" using Suc.prems[of "a + j"] by simp
  ultimately show ?case by simp
qed

lemma sumAttrSizes_mono:
  assumes "\<forall>i<nat n. 0 \<le> typeLength s ! i" "k \<le> m" "m \<le> n"
  shows "sumAttrSizes s k \<le> sumAttrSizes s m"
proof -
  have "nat k \<le> nat m" using assms by simp
  then obtain j where j: "nat m = nat k + j" using le_Suc_ex by blast
  have "\<And>i. i < nat k + j \<Longrightarrow> 0 \<le> attrSize (dataTypes s ! i) (typeLength s ! i)"
    using assms j by (intro attrSize_nonneg) auto
  then show ?thesis
    unfolding sumAttrSizes_def j by (rule sum_upt_mono)
qed

lemma sumAttrSizes_nonneg:
  assumes "\<forall>i<nat n. 0 \<le> typeLength s ! i" "k \<le> n"
  shows "0 \<le> sumAttrSizes s k"
proof -
  have "sumAttrSizes s 0 \<le> sumAttrSizes s (max k 0)"
    using assms by (intro sumAttrSizes_mono[where n="max n 0"]) auto
  moreover have "nat (max k 0) = nat k" by simp
  then have "sumAttrSizes s (max k 0) = sumAttrSizes s k"
    by (simp only: sumAttrSizes_def)
  ultimately show ?thesis by (simp add: sumAttrSizes_def)
qed

lemma attr_in_record:
  assumes "0 \<le> k" "k < numAttr s" "\<forall>i<nat (numAttr s). 0 \<le> typeLength s ! i"
  shows "0 \<le> calculateAttributeOffset s k"
    and "calculateAttributeOffset s k + attrSize (dataTypes s ! nat k) (typeLength s ! nat k)
           \<le> computeRecordSize s"
proof -
  show "0 \<le> calculateAttributeOffset s k"
    unfolding calculateAttributeOffset_def
    using assms by (intro sumAttrSizes_nonneg[where n="numAttr s"]) auto
  have "sumAttrSizes s (k + 1) \<le> sumAttrSizes s (numAttr s)"
    using assms by (intro sumAttrSizes_mono[where n="numAttr s"]) auto
  then show "calculateAttributeOffset s k + attrSize (dataTypes s ! nat k) (typeLength s ! nat k)
           \<le> computeRecordSize s"
    using assms(1) by (simp add: sumAttrSizes_Suc calculateAttributeOffset_def computeRecordSize_def)
qed

lemma length_int_bytes: "length (int_bytes n) = 4"
  by (simp add: int_bytes_def)

lemma byte_bool_bool_byte: "byte_bool (bool_byte b) = b"
  by (simp add: byte_bool_def bool_byte_def)

lemma read_back:
  assumes "0 \<le> off" "nat off + length src \<le> length buf"
  shows "take (length src) (drop (nat off) (memcpy_at buf off src)) = src"
  using assms by (simp add: drop_memcpy_at)


text \<open>
  C5. For a record whose buffer has the schema's record size, an attribute index \<open>k\<close>
  in range and a value \<open>v\<close> of the attribute's type, \<^verbatim>\<open>setAttr\<close> returns \<^verbatim>\<open>RC_OK\<close> and
  \<^verbatim>\<open>getAttr\<close> on the result returns \<open>v\<close> itself for an INT, FLOAT or BOOL attribute;
  for a STRING attribute it returns the C string of \<open>v\<close> truncated or zero-padded to
  exactly \<open>typeLength[k]\<close> characters and followed by a terminating zero byte, that is a
  buffer of \<open>typeLength[k] + 1\<close> bytes. Type lengths are not negative.
\<close>

theorem setAttr_getAttr_roundtrip:
  assumes k: "0 \<le> k" "k < numAttr s"
    and len: "\<forall>i<nat (numAttr s). 0 \<le> typeLength s ! i"
    and buf: "data r = Some d" "length d = nat (computeRecordSize s)"
    and ty: "dt v = dataTypes s ! nat k"
  shows "\<exists>r'. setAttr r s k v = Inr (RC_OK, r') \<and>
           getAttr r' s k = Inr (RC_OK, Some
             (case v of
                VString str \<Rightarrow>
                  VString (truncate_or_pad (cstring str) (nat (typeLength s ! nat k)) @ [0])
              | _ \<Rightarrow> v))"
proof -
  let ?off = "calculateAttributeOffset s k"
  have off0: "0 \<le> ?off" using attr_in_record(1)[OF k len] .
  have fit: "?off + attrSize (dataTypes s ! nat k) (typeLength s ! nat k) \<le> computeRecordSize s"
    using attr_in_record(2)[OF k len] .
  have tl0: "0 \<le> typeLength s ! nat k" using k len by simp
  show ?thesis
  proof (cases v)
    case (VInt w)
    then have t: "dataTypes s ! nat k = DT_INT" using ty by simp
    have inb: "nat ?off + length (int_bytes (sint w)) \<le> length d"
      using fit off0 buf t by (simp add: length_int_bytes)
    have "take 4 (drop (nat ?off) (memcpy_at d ?off (int_bytes (sint w)))) = int_bytes (sint w)"
      using read_back[OF off0 inb] by (simp add: length_int_bytes)
    then show ?thesis
      using k buf VInt t by (simp add: setAttr_def getAttr_def Let_def word32_roundtrip)
  next
    case (VFloat w)
    then have t: "dataTypes s ! nat k = DT_FLOAT" using ty by simp
    have inb: "nat ?off + length (int_bytes (sint w)) \<le> length d"
      using fit off0 buf t by (simp add: length_int_bytes)
    have "take 4 (drop (nat ?off) (memcpy_at d ?off (int_bytes (sint w)))) = int_bytes (sint w)"
      using read_back[OF off0 inb] by (simp add: length_int_bytes)
    then show ?thesis
      using k buf VFloat t by (simp add: setAttr_def getAttr_def Let_def word32_roundtrip)
  next
    case (VBool b)
    then have t: "dataTypes s ! nat k = DT_BOOL" using ty by simp
    have inb: "nat ?off + length [bool_byte b] \<le> length d"
      using fit off0 buf t by simp
    have "drop (nat ?off) (memcpy_at d ?off [bool_byte b]) = [bool_byte b] @ drop (nat ?off + length [bool_byte b]) d"
      using drop_memcpy_at[OF off0 inb] .
    then have "memcpy_at d ?off [bool_byte b] ! nat ?off = bool_byte b"
      by (metis append_Cons nth_via_drop)
    then show ?thesis
      using k buf VBool t by (simp add: setAttr_def getAttr_def Let_def byte_bool_bool_byte)
  next
    case (VString str)
    then have t: "dataTypes s ! nat k = DT_STRING" using ty by simp
    let ?n = "typeLength s ! nat k"
    have inb: "nat ?off + length (strncpy str ?n) \<le> length d"
      using fit off0 buf t tl0 by (simp add: length_strncpy)
    have "drop (nat ?off) (memcpy_at d ?off (strncpy str ?n))
            = strncpy str ?n @ drop (nat ?off + length (strncpy str ?n)) d"
      using drop_memcpy_at[OF off0 inb] .
    then have "strncpy (drop (nat ?off) (memcpy_at d ?off (strncpy str ?n))) ?n = strncpy str ?n"
      by (simp only: strncpy_strncpy)
    then show ?thesis
      using k buf VString t
      by (simp add: setAttr_def getAttr_def Let_def strncpy_truncate_or_pad)
  qed
qed


theorem setAttr_getAttr_roundtrip_witness:
  "\<exists>r'. setAttr \<lparr>id' = \<lparr>page = - 1, slot = - 1\<rparr>, data = Some (replicate 12 0)\<rparr>
              personSchema 1 (VString [97, 108, 0]) = Inr (RC_OK, r') \<and>
        getAttr r' personSchema 1
          = Inr (RC_OK, Some (VString [97, 108, 0, 0, 0, 0, 0, 0, 0]))"
proof -
  have k: "(0::int) \<le> 1" "1 < numAttr personSchema"
    by (simp_all add: personSchema_def)
  have len: "\<forall>i<nat (numAttr personSchema). 0 \<le> typeLength personSchema ! i"
    by (simp add: personSchema_def less_Suc_eq numeral_2_eq_2)
  have buf: "data \<lparr>id' = \<lparr>page = - 1, slot = - 1\<rparr>, data = Some (replicate 12 (0::byte))\<rparr>
               = Some (replicate 12 0)"
    by simp
  have size: "length (replicate 12 (0::byte)) = nat (computeRecordSize personSchema)"
    by code_simp
  have ty: "dt (VString [97, 108, 0]) = dataTypes personSchema ! nat 1"
    by (simp add: personSchema_def)
  have pad: "truncate_or_pad (cstring [97, 108, 0]) (nat (typeLength personSchema ! nat 1)) @ [0]
               = [97, 108, 0, 0, 0, 0, 0, 0, 0]"
    by code_simp
  show ?thesis
    using setAttr_getAttr_roundtrip [OF k len buf size ty] pad by simp
qed


section \<open>Closing a table twice\<close>

lemma closeScan_idempotent:
  "mgmtData scan \<noteq> Freed \<Longrightarrow>
     \<exists>s1. closeScan scan = Inr (RC_OK, s1) \<and> closeScan s1 = Inr (RC_OK, s1)"
  by (cases "mgmtData scan") (simp_all add: closeScan_def)

lemma closeTable_leaves_dangling:
  assumes "managementData rel = Live m" "schema rel = Live sch"
  shows "\<exists>rel'. closeTable rel = Inr (RC_OK, rel') \<and> closeTable rel' = Inl UseAfterFree"
  using assms by (simp add: closeTable_def)

text \<open>
  C8. A table is created with the schema \<^verbatim>\<open>(id:INT, name:STRING[8])\<close>, opened, and
  closed twice. The first \<^verbatim>\<open>closeTable\<close> returns \<^verbatim>\<open>RC_OK\<close>. The second one finds both
  pointers of the handle not \<^verbatim>\<open>NULL\<close>, since the first call stored nothing into them,
  so it passes the guard and reads through a pointer to released memory: it does not
  return \<^verbatim>\<open>RC_OK\<close> after performing no release.
\<close>

theorem closeTable_twice:
  "(case createAndOpen 4096 personSchema of
      None \<Rightarrow> None
    | Some rel \<Rightarrow>
        (case closeTable rel of
           Inl flt \<Rightarrow> None
         | Inr (rc, rel') \<Rightarrow> Some (rc, map_sum (\<lambda>flt. flt) fst (closeTable rel'))))
   = Some (RC_OK, Inl UseAfterFree)"
  by code_simp

section \<open>Counting tuples\<close>

text \<open>
  C2. One record is inserted into a fresh table and then deleted, both calls returning
  \<^verbatim>\<open>RC_OK\<close>. \<^verbatim>\<open>getNumTuples\<close> returns 1 after the insert and still 1 after the delete,
  although no slot of the table is live any more and \<^verbatim>\<open>getRecord\<close> on the deleted
  identifier returns \<^verbatim>\<open>RC_RM_RECORD_NOT_FOUND\<close>.
\<close>

theorem getNumTuples_after_delete:
  "(case createAndOpen 4096 personSchema of
      None \<Rightarrow> None
    | Some rel \<Rightarrow>
        (case runCalls 4096 rel [Insert (person 1 97)] of
           None \<Rightarrow> None
         | Some (rel1, rids1) \<Rightarrow>
             (case runCalls 4096 rel1 [Delete \<lparr>page = 0, slot = 0\<rparr>] of
                None \<Rightarrow> None
              | Some (rel2, rids2) \<Rightarrow>
                  Some (getNumTuples rel1, getNumTuples rel2, liveRIDs rel2,
                        readRecord rel2 \<lparr>page = 0, slot = 0\<rparr>))))
   = Some (Inr 1, Inr 1, [], Some (RC_RM_RECORD_NOT_FOUND, None))"
  by code_simp

section \<open>Reusing a tombstoned slot\<close>

text \<open>
  C1. Three records are inserted into a fresh table and get the identifiers (0,0), (0,1)
  and (0,2); the record (0,1) is deleted. At that point \<^verbatim>\<open>getRecord\<close> on (0,2) returns the
  third record. A fourth record is then inserted: it reuses slot 1, and afterwards
  \<^verbatim>\<open>getRecord\<close> on (0,2), which was neither deleted nor updated, returns the bytes of the
  fourth record.
\<close>

theorem slot_reuse_overwrites:
  "(case createAndOpen 4096 personSchema of
      None \<Rightarrow> None
    | Some rel \<Rightarrow>
        (case runCalls 4096 rel [Insert (person 1 97), Insert (person 2 98), Insert (person 3 99),
                                 Delete \<lparr>page = 0, slot = 1\<rparr>] of
           None \<Rightarrow> None
         | Some (rel1, rids1) \<Rightarrow>
             (case runCalls 4096 rel1 [Insert (person 4 100)] of
                None \<Rightarrow> None
              | Some (rel2, rids2) \<Rightarrow>
                  Some (rids1, readRecord rel1 \<lparr>page = 0, slot = 2\<rparr>,
                        rids2, readRecord rel2 \<lparr>page = 0, slot = 2\<rparr>))))
   = Some ([\<lparr>page = 0, slot = 0\<rparr>, \<lparr>page = 0, slot = 1\<rparr>, \<lparr>page = 0, slot = 2\<rparr>,
            \<lparr>page = 0, slot = 1\<rparr>],
           Some (RC_OK, Some (person 3 99)),
           [\<lparr>page = 0, slot = 1\<rparr>],
           Some (RC_OK, Some (person 4 100)))"
  by code_simp

section \<open>The directory on disk\<close>

text \<open>
  Once \<open>numPages\<close> has reached the capacity of a directory page, the directory is saved
  to a block other than block 1, the only block it is loaded from.
\<close>

lemma c_div_nonneg: "0 \<le> a \<Longrightarrow> 0 < b \<Longrightarrow> c_div a b = a div b"
  by (simp add: c_div_def)

lemma map_of_store_other: "k \<noteq> j \<Longrightarrow> map_of (store k v es) j = map_of es j"
  by (induction es) auto

lemma save_leaves_block_1:
  assumes "0 < maxEntriesPerPage PAGE_SIZE" "maxEntriesPerPage PAGE_SIZE \<le> numPages m"
    and "0 < numPageDP m"
    and "savePageDirectoryToDisk PAGE_SIZE m f = Inr f'"
  shows "readBlock f' 1 = readBlock f 1"
proof -
  let ?k = "maxEntriesPerPage PAGE_SIZE"
  define q where "q = numPages m div ?k"
  have "?k div ?k \<le> numPages m div ?k"
    using assms(1,2) by (intro zdiv_mono1) simp_all
  then have q1: "1 \<le> q"
    using assms(1) by (simp add: q_def)
  have "1 * ?k \<le> q * ?k"
    using q1 assms(1) by (intro mult_right_mono) simp_all
  then have "2 \<le> q * ?k + numPageDP m"
    using assms(1,3) by linarith
  moreover have "c_div (numPages m) ?k = q"
    unfolding q_def using assms by (intro c_div_nonneg) linarith+
  ultimately have "c_div (numPages m) ?k * ?k + numPageDP m \<noteq> 1"
    by simp
  then show ?thesis
    using assms(4)
    by (auto simp: savePageDirectoryToDisk_def writeBlock_def readBlock_def Let_def
          map_of_store_other split: if_splits)
qed

text \<open>
  C4. With pages of 40 bytes a directory page has room for two entries. Two records of 16
  bytes are inserted into a fresh table; each fills a data page, so \<open>numPages\<close> becomes 2
  with one directory page, and \<^verbatim>\<open>getNumTuples\<close> returns 2. The table is closed and opened
  again: \<^verbatim>\<open>getNumTuples\<close> returns 1.
\<close>

theorem reopen_loses_count:
  "(case createAndOpen 40 wideSchema of
      None \<Rightarrow> None
    | Some rel \<Rightarrow>
        (case runCalls 40 rel [Insert (wide 1), Insert (wide 2)] of
           None \<Rightarrow> None
         | Some (rel1, rids) \<Rightarrow>
             Some (counters rel1, getNumTuples rel1,
                   map_option getNumTuples (closeAndReopen rel1))))
   = Some (Some (2, 1), Inr 2, Some (Inr 1))"
  by code_simp

section \<open>Page numbers\<close>



section \<open>Record identifiers\<close>




section \<open>The evaluator in a scan with a null condition\<close>

lemma scanSlots_Hit_null:
  "scanSlots ev sch cond pg rcount rs cp cs r = Hit s r' \<Longrightarrow> cond = None \<Longrightarrow>
     ev r' sch None \<noteq> None"
proof (induction ev sch cond pg rcount rs cp cs r rule: scanSlots.induct)
  case (1 ev sch cond pageData rcount recordSize cp cs rcd)
  from "1.prems" show ?case
    apply (subst (asm) scanSlots.simps)
    apply (simp only: Let_def split: if_splits option.splits)
    using "1.IH" apply auto
    done
qed

lemma scanPages_results:
  "scanPages PAGE_SIZE ev sch cond f pd n pool cp cs r = res \<Longrightarrow>
     res = Inl NullDeref
     \<or> (\<exists>pool' cp' cs' r'. res = Inr (RC_OK, pool', cp', cs', r')
           \<and> (cond = None \<longrightarrow> ev r' sch None \<noteq> None))
     \<or> (\<exists>pool' cp' cs' r'. res = Inr (RC_RM_NO_MORE_TUPLES, pool', cp', cs', r'))"
proof (induction PAGE_SIZE ev sch cond f pd n pool cp cs r arbitrary: res rule: scanPages.induct)
  case (1 PAGE_SIZE ev sch cond f pd n pool cp cs rcd)
  show ?case
  proof (cases "cp < n")
    case False
    then show ?thesis using "1.prems" by (subst (asm) scanPages.simps) auto
  next
    case True
    obtain pool' pageData where pin: "pinPage pool f (scanPageNum PAGE_SIZE cp) = (pool', pageData)"
      by (cases "pinPage pool f (scanPageNum PAGE_SIZE cp)") auto
    let ?ss = "scanSlots ev sch cond pageData (recordCount (pd ! nat cp)) (computeRecordSize sch) cp cs rcd"
    show ?thesis
    proof (cases ?ss)
      case (Hit s r')
      then have "res = Inr (RC_OK, pool', cp, s, r')"
        using "1.prems" True pin by (subst (asm) scanPages.simps) simp
      moreover have "cond = None \<longrightarrow> ev r' sch None \<noteq> None"
        using scanSlots_Hit_null[OF Hit] by simp
      ultimately show ?thesis by blast
    next
      case (Miss r')
      then have "scanPages PAGE_SIZE ev sch cond f pd n pool' (cp + 1) 0 r' = res"
        using "1.prems" True pin by (subst (asm) scanPages.simps) simp
      then show ?thesis
        using "1.IH"[OF True refl pin[symmetric] refl Miss] by blast
    next
      case Crash
      then have "res = Inl NullDeref"
        using "1.prems" True pin by (subst (asm) scanPages.simps) simp
      then show ?thesis by simp
    qed
  qed
qed


text \<open>
  C10. \<^verbatim>\<open>next\<close> calls the evaluator and reads \<^verbatim>\<open>boolV\<close> of its result at every slot
  that is not free, before it looks at whether the condition is \<^verbatim>\<open>NULL\<close>. For a scan
  with a null condition on an open table: whenever \<^verbatim>\<open>next\<close> returns \<^verbatim>\<open>RC_OK\<close> with a
  record, the evaluator has stored a value for that record and the null expression; and
  under an evaluator that stores no value for the null expression, \<^verbatim>\<open>next\<close> either
  reads through the \<^verbatim>\<open>NULL\<close> result or, having met no slot that is not free, returns
  \<^verbatim>\<open>RC_RM_NO_MORE_TUPLES\<close>.
\<close>

theorem next_reads_evaluator_result:
  assumes "mgmtData scan = Live si" "condition si = None"
    and "managementData rel = Live m" "schema rel = Live sch"
  shows "(\<forall>rel' scan' r'. next' PAGE_SIZE ev rel scan record = Inr (RC_OK, rel', scan', r')
            \<longrightarrow> ev r' sch None \<noteq> None)
       \<and> ((\<forall>r. ev r sch None = None) \<longrightarrow>
            next' PAGE_SIZE ev rel scan record = Inl NullDeref
            \<or> (\<exists>rel' scan' r'. next' PAGE_SIZE ev rel scan record
                  = Inr (RC_RM_NO_MORE_TUPLES, rel', scan', r')))"
proof -
  let ?sp = "scanPages PAGE_SIZE ev sch None (name rel) (pageDirectory m)
               (numPages m - numPageDP m + 1) (bm m) (currentPage si) (currentSlot si) record"
  have nx: "next' PAGE_SIZE ev rel scan record =
      (case ?sp of
         Inl flt \<Rightarrow> Inl flt
       | Inr (rc, pool, cp, cs, record') \<Rightarrow>
           Inr (rc, rel\<lparr>managementData := Live (m\<lparr>bm := pool\<rparr>)\<rparr>,
                scan\<lparr>mgmtData := Live (si\<lparr>currentPage := cp, currentSlot := cs\<rparr>)\<rparr>,
                record'))"
    using assms by (simp add: next'_def)
  from scanPages_results[OF refl, of PAGE_SIZE ev sch None "name rel" "pageDirectory m"
      "numPages m - numPageDP m + 1" "bm m" "currentPage si" "currentSlot si" "record"]
  consider (crash) "?sp = Inl NullDeref"
    | (ok) pool' cp' cs' r' where "?sp = Inr (RC_OK, pool', cp', cs', r')" "ev r' sch None \<noteq> None"
    | (nomore) pool' cp' cs' r' where "?sp = Inr (RC_RM_NO_MORE_TUPLES, pool', cp', cs', r')"
    by blast
  then show ?thesis
  proof cases
    case crash
    then show ?thesis by (simp add: nx)
  next
    case ok
    then show ?thesis by (auto simp: nx)
  next
    case nomore
    then show ?thesis by (simp add: nx)
  qed
qed

theorem next_reads_evaluator_result_witness:
  "(\<exists>rel' scan' r'.
      next' 4096 evalFalse filledTable (snd (startScan \<lparr>mgmtData = Null\<rparr> None)) emptyRecord
        = Inr (RC_OK, rel', scan', r')
      \<and> evalFalse r' personSchema None \<noteq> None)
   \<and> next' 4096 evalNone filledTable (snd (startScan \<lparr>mgmtData = Null\<rparr> None)) emptyRecord
        = Inl NullDeref"
proof -
  let ?scan = "snd (startScan \<lparr>mgmtData = Null\<rparr> None) :: unit RM_ScanHandle"
  let ?si = "\<lparr>condition = None, currentPage = 0, currentSlot = 0\<rparr> :: unit ScanInfo"
  have s: "mgmtData ?scan = Live ?si" by (simp add: startScan_def)
  have c: "condition ?si = None" by simp
  have f0: "(case managementData filledTable of Live m \<Rightarrow> True | _ \<Rightarrow> False)"
    by code_simp
  then obtain m where m: "managementData filledTable = Live m"
    by (cases "managementData filledTable") auto
  have sch: "schema filledTable = Live personSchema"
    by code_simp
  have f1: "map_sum (\<lambda>x. x) fst (next' 4096 evalFalse filledTable ?scan emptyRecord) = Inr RC_OK"
    by code_simp
  then obtain rel' scan' r' where
    ok: "next' 4096 evalFalse filledTable ?scan emptyRecord = Inr (RC_OK, rel', scan', r')"
    by (cases "next' 4096 evalFalse filledTable ?scan emptyRecord") auto
  have f2: "map_sum (\<lambda>x. x) fst (next' 4096 evalNone filledTable ?scan emptyRecord)
              \<noteq> Inr RC_RM_NO_MORE_TUPLES"
    by code_simp
  have none: "\<forall>r. evalNone r personSchema None = None"
    by (simp add: evalNone_def)
  have a: "evalFalse r' personSchema None \<noteq> None"
    by (rule next_reads_evaluator_result [OF s c m sch, of 4096 evalFalse emptyRecord,
          THEN conjunct1, rule_format, OF ok])
  have "next' 4096 evalNone filledTable ?scan emptyRecord = Inl NullDeref
        \<or> (\<exists>rel' scan' r'. next' 4096 evalNone filledTable ?scan emptyRecord
              = Inr (RC_RM_NO_MORE_TUPLES, rel', scan', r'))"
    by (rule next_reads_evaluator_result [OF s c m sch, of 4096 evalNone emptyRecord,
          THEN conjunct2, THEN mp, OF none])
  then have b: "next' 4096 evalNone filledTable ?scan emptyRecord = Inl NullDeref"
    using f2 by (elim disjE exE) simp_all
  show ?thesis
    using a b ok by (intro conjI exI [of _ rel'] exI [of _ scan'] exI [of _ r']) simp_all
qed

section \<open>The record count of a data page never decreases\<close>

lemma findFreePageLoop_range:
  "findFreePageLoop pd n i = r \<Longrightarrow> r = - 1 \<or> (i \<le> r \<and> r < n)"
proof (induction pd n i rule: findFreePageLoop.induct)
  case (1 pd n i)
  from "1.prems" show ?case
    apply (subst (asm) findFreePageLoop.simps)
    apply (simp split: if_splits)
    using "1.IH" apply fastforce
    done
qed

lemma growDirectory_dir:
  "growDirectory PAGE_SIZE (m, f) = (m', f') \<Longrightarrow>
     pageDirectory m' = pageDirectory m \<and> numDataPages m' = numDataPages m"
  by (auto simp: growDirectory_def Let_def numDataPages_def split: if_splits)

lemma length_realloc: "length (realloc pd n) = nat n"
  by (simp add: realloc_def)

lemma nth_realloc: "k < length pd \<Longrightarrow> k < nat n \<Longrightarrow> realloc pd n ! k = pd ! k"
  by (simp add: realloc_def nth_append)

lemma choosePage_dir:
  assumes "choosePage PAGE_SIZE (m, f) = (m', f', i)"
    and "nat (numDataPages m) \<le> length (pageDirectory m)"
  shows "0 \<le> p \<Longrightarrow> p < numDataPages m \<Longrightarrow> pageDirectory m' ! nat p = pageDirectory m ! nat p"
    and "i = numDataPages m \<or> (0 \<le> i \<and> i < numDataPages m)"
    and "numDataPages m \<le> numDataPages m'"
    and "nat (numDataPages m') \<le> length (pageDirectory m')"
proof -
  let ?r = "findFreePageIndex m"
  have range: "?r = - 1 \<or> (0 \<le> ?r \<and> ?r < numDataPages m)"
    using findFreePageLoop_range[OF refl, of "pageDirectory m" "numPages m - numPageDP m + 1" 0]
    by (simp add: findFreePageIndex_def numDataPages_def)
  show "i = numDataPages m \<or> (0 \<le> i \<and> i < numDataPages m)"
    using assms(1) range
    by (auto simp: choosePage_def Let_def numDataPages_def split: if_splits)
  show "numDataPages m \<le> numDataPages m'"
    using assms(1)
    by (auto simp: choosePage_def Let_def numDataPages_def split: if_splits)
  show "nat (numDataPages m') \<le> length (pageDirectory m')"
  proof (cases "?r = - 1")
    case True
    then have "pageDirectory m' = (realloc (pageDirectory m) (numDataPages m + 1))
                 [nat (numDataPages m) := initPageDirectoryEntry PAGE_SIZE (numPages m + 1 - numPageDP m)]"
      and "numDataPages m' = numDataPages m + 1"
      using assms(1) by (auto simp: choosePage_def Let_def numDataPages_def)
    then show ?thesis by (simp add: length_realloc)
  next
    case False
    then have "m' = m" using assms(1) by (auto simp: choosePage_def Let_def)
    then show ?thesis using assms(2) by simp
  qed
  show "pageDirectory m' ! nat p = pageDirectory m ! nat p" if p: "0 \<le> p" "p < numDataPages m"
  proof (cases "?r = - 1")
    case True
    then have pd: "pageDirectory m' = (realloc (pageDirectory m) (numDataPages m + 1))
                 [nat (numDataPages m) := initPageDirectoryEntry PAGE_SIZE (numPages m + 1 - numPageDP m)]"
      using assms(1) by (auto simp: choosePage_def Let_def numDataPages_def)
    have ne: "nat (numDataPages m) \<noteq> nat p" using p by simp
    have "nat p < length (pageDirectory m)" "nat p < nat (numDataPages m + 1)"
      using p assms(2) by simp_all
    then show ?thesis
      unfolding pd using ne by (simp add: nth_realloc)
  next
    case False
    then have "m' = m" using assms(1) by (auto simp: choosePage_def Let_def)
    then show ?thesis by simp
  qed
qed

lemma updatePageStatistics_recordCount:
  "updatePageStatistics sch m i c b = Inr m' \<Longrightarrow>
     recordCount (pageDirectory m' ! k) = recordCount (pageDirectory m ! k)"
  by (cases "k = nat i")
     (auto simp: updatePageStatistics_def Let_def split: if_splits)

lemma updatePageStatistics_length:
  "updatePageStatistics sch m i c b = Inr m' \<Longrightarrow>
     length (pageDirectory m') = length (pageDirectory m)"
  by (auto simp: updatePageStatistics_def Let_def split: if_splits)

lemma updatePageStatistics_counters:
  assumes "updatePageStatistics sch m i c b = Inr m'"
  shows "numPages m' = numPages m" "numPageDP m' = numPageDP m" "bm m' = bm m"
  using assms by (auto simp: updatePageStatistics_def Let_def split: if_splits)

lemma insertRecord_recordCount:
  assumes ins: "insertRecord PAGE_SIZE rel rcd = Inr (rc, rel', r')"
    and live: "managementData rel = Live m0"
    and p: "0 \<le> p" "p < numDataPages m0"
    and len: "nat (numDataPages m0) \<le> length (pageDirectory m0)"
  shows "\<exists>m'. managementData rel' = Live m'
           \<and> numDataPages m0 \<le> numDataPages m'
           \<and> nat (numDataPages m') \<le> length (pageDirectory m')
           \<and> (recordCount (pageDirectory m' ! nat p) = recordCount (pageDirectory m0 ! nat p)
              \<or> recordCount (pageDirectory m' ! nat p) = recordCount (pageDirectory m0 ! nat p) + 1
                \<and> id' r' = \<lparr>page = pageID (pageDirectory m0 ! nat p),
                              slot = recordCount (pageDirectory m0 ! nat p)\<rparr>)"
proof -
  obtain sch where sch: "schema rel = Live sch"
    using ins live by (cases "schema rel") (simp_all add: insertRecord_def)
  obtain d where d: "data rcd = Some d"
    using ins live sch by (cases "data rcd") (simp_all add: insertRecord_def)
  obtain m1 f1 where g: "growDirectory PAGE_SIZE (m0, name rel) = (m1, f1)"
    by (cases "growDirectory PAGE_SIZE (m0, name rel)") auto
  obtain m f i where c: "choosePage PAGE_SIZE (m1, f1) = (m, f, i)"
    by (cases "choosePage PAGE_SIZE (m1, f1)") auto
  let ?entry = "pageDirectory m ! nat i"
  obtain pool pg where pin: "pinPage (bm m) f (dataPageNum m (pageID ?entry)) = (pool, pg)"
    by (cases "pinPage (bm m) f (dataPageNum m (pageID ?entry))") auto
  have g1: "pageDirectory m1 = pageDirectory m0" "numDataPages m1 = numDataPages m0"
    using growDirectory_dir[OF g] by simp_all
  have len1: "nat (numDataPages m1) \<le> length (pageDirectory m1)"
    using len g1 by simp
  have c1: "pageDirectory m ! nat p = pageDirectory m0 ! nat p"
    using choosePage_dir(1)[OF c len1, of p] p g1 by simp
  have c2: "i = numDataPages m0 \<or> (0 \<le> i \<and> i < numDataPages m0)"
    using choosePage_dir(2)[OF c len1] g1 by simp
  have c3: "numDataPages m0 \<le> numDataPages m"
    using choosePage_dir(3)[OF c len1] g1 by simp
  have c4: "nat (numDataPages m) \<le> length (pageDirectory m)"
    using choosePage_dir(4)[OF c len1] .
  define found where "found = locateFreeSlot pg (recordCount ?entry)"
  define rcount where
    "rcount = (if found = - 1 then recordCount ?entry + 1 else recordCount ?entry)"
  define slotIndex where "slotIndex = (if found = - 1 then recordCount ?entry else found)"
  define mA where
    "mA = m\<lparr>pageDirectory := (pageDirectory m)[nat i := ?entry\<lparr>recordCount := rcount\<rparr>]\<rparr>"
  have "\<exists>m2 pool'. updatePageStatistics sch mA i
            (- (computeRecordSize sch + sizeof_SlotDirectoryEntry)) True = Inr m2
          \<and> managementData rel' = Live (m2\<lparr>bm := pool'\<rparr>)"
    and rid: "id' r' = \<lparr>page = pageID ?entry, slot = slotIndex\<rparr>"
    using ins live sch d g c pin
    by (auto simp: insertRecord_def Let_def found_def rcount_def slotIndex_def mA_def
             split: sum.splits)
  then obtain m2 pool' where
    m2: "updatePageStatistics sch mA i
           (- (computeRecordSize sch + sizeof_SlotDirectoryEntry)) True = Inr m2"
    and m': "managementData rel' = Live (m2\<lparr>bm := pool'\<rparr>)" by blast
  have cnt: "numDataPages (m2\<lparr>bm := pool'\<rparr>) = numDataPages m"
    using updatePageStatistics_counters[OF m2] by (simp add: numDataPages_def mA_def)
  have lenA: "length (pageDirectory (m2\<lparr>bm := pool'\<rparr>)) = length (pageDirectory m)"
    using updatePageStatistics_length[OF m2] by (simp add: mA_def)
  have rcA: "recordCount (pageDirectory (m2\<lparr>bm := pool'\<rparr>) ! nat p)
               = recordCount (pageDirectory mA ! nat p)"
    using updatePageStatistics_recordCount[OF m2] by simp
  have "recordCount (pageDirectory mA ! nat p) = recordCount (pageDirectory m0 ! nat p)
      \<or> recordCount (pageDirectory mA ! nat p) = recordCount (pageDirectory m0 ! nat p) + 1
        \<and> id' r' = \<lparr>page = pageID (pageDirectory m0 ! nat p),
                      slot = recordCount (pageDirectory m0 ! nat p)\<rparr>"
  proof (cases "i = p")
    case True
    then have "nat i < length (pageDirectory m)" using p c3 c4 by simp
    then have "pageDirectory mA ! nat p = ?entry\<lparr>recordCount := rcount\<rparr>"
      using True by (simp add: mA_def)
    moreover have "?entry = pageDirectory m0 ! nat p" using True c1 by simp
    ultimately show ?thesis
      using rid by (auto simp: rcount_def slotIndex_def)
  next
    case False
    then have "nat i \<noteq> nat p" using p c2 by auto
    then have "pageDirectory mA ! nat p = pageDirectory m ! nat p"
      by (simp add: mA_def)
    then show ?thesis using c1 by simp
  qed
  then show ?thesis
    using m' cnt lenA rcA c3 c4 by auto
qed


lemma deleteRecord_recordCount:
  assumes del: "deleteRecord PAGE_SIZE rel rid = Inr (rc, rel')"
    and live: "managementData rel = Live m"
  shows "\<exists>m'. managementData rel' = Live m'
           \<and> numDataPages m' = numDataPages m
           \<and> length (pageDirectory m') = length (pageDirectory m)
           \<and> (\<forall>k. recordCount (pageDirectory m' ! k) = recordCount (pageDirectory m ! k))"
proof (cases "isValidRecordID rid (numPages m)")
  case False
  then have "rel' = rel" using del live by (simp add: deleteRecord_def)
  then show ?thesis using live by simp
next
  case True
  obtain pool pg where pin: "pinPage (bm m) (name rel) (dataPageNum m (page rid)) = (pool, pg)"
    by (cases "pinPage (bm m) (name rel) (dataPageNum m (page rid))") auto
  show ?thesis
  proof (cases "isFree (readSlot pg (slot rid))")
    case free: True
    then have "managementData rel' = Live (m\<lparr>bm := pool\<rparr>)"
      using del live True pin by (auto simp: deleteRecord_def Let_def)
    then show ?thesis by (simp add: numDataPages_def)
  next
    case notfree: False
    obtain sch where sch: "schema rel = Live sch"
      using del live True pin notfree
      by (cases "schema rel") (simp_all add: deleteRecord_def Let_def)
    have "\<exists>m1 pool'. updatePageStatistics sch m (page rid) (computeRecordSize sch) False
                       = Inr m1
            \<and> managementData rel' = Live (m1\<lparr>bm := pool'\<rparr>)"
      using del live True pin notfree sch
      by (auto simp: deleteRecord_def Let_def split: sum.splits)
    then obtain m1 pool' where
      m1: "updatePageStatistics sch m (page rid) (computeRecordSize sch) False = Inr m1"
      and m': "managementData rel' = Live (m1\<lparr>bm := pool'\<rparr>)" by blast
    show ?thesis
      using m' updatePageStatistics_counters[OF m1] updatePageStatistics_length[OF m1]
        updatePageStatistics_recordCount[OF m1]
      by (simp add: numDataPages_def)
  qed
qed

lemma updateRecord_recordCount:
  assumes upd: "updateRecord PAGE_SIZE rel rcd = Inr (rc, rel', r')"
    and live: "managementData rel = Live m"
    and p: "0 \<le> p" "p < numDataPages m"
    and len: "nat (numDataPages m) \<le> length (pageDirectory m)"
  shows "\<exists>m'. managementData rel' = Live m'
           \<and> recordCount (pageDirectory m ! nat p) \<le> recordCount (pageDirectory m' ! nat p)"
proof (cases "isValidRecordID (id' rcd) (numPages m)")
  case False
  then have "rel' = rel" using upd live by (simp add: updateRecord_def)
  then show ?thesis using live by simp
next
  case True
  let ?pn = "dataPageNum m (page (id' rcd))"
  obtain pool pg where pin: "pinPage (bm m) (name rel) ?pn = (pool, pg)"
    by (cases "pinPage (bm m) (name rel) ?pn") auto
  let ?rel1 = "rel\<lparr>managementData := Live (m\<lparr>bm := pool\<rparr>)\<rparr>"
  show ?thesis
  proof (cases "isFree (readSlot pg (slot (id' rcd)))")
    case free: True
    then have "rel' = ?rel1"
      using upd live True pin by (auto simp: updateRecord_def Let_def)
    then show ?thesis by simp
  next
    case notfree: False
    obtain sch where sch: "schema rel = Live sch"
      using upd live True pin notfree
      by (cases "schema rel") (simp_all add: updateRecord_def Let_def)
    let ?avail = "freeSpace (pageDirectory m ! nat (page (id' rcd)))
                    + (offset (readSlot pg (slot (id' rcd)))
                       - slot (id' rcd) * sizeof_SlotDirectoryEntry)"
    show ?thesis
    proof (cases "computeRecordSize sch > ?avail")
      case inplace: False
      then have "\<exists>pool'. managementData rel' = Live (m\<lparr>bm := pool'\<rparr>)"
        using upd live True pin notfree sch
        by (cases "data rcd") (auto simp: updateRecord_def Let_def)
      then show ?thesis by auto
    next
      case move: True
      have step: "(case deleteRecord PAGE_SIZE ?rel1 (id' rcd) of
                     Inl flt \<Rightarrow> Inl flt
                   | Inr (result, rel1) \<Rightarrow>
                       if result \<noteq> RC_OK then Inr (result, rel1, rcd)
                       else insertRecord PAGE_SIZE rel1 rcd) = Inr (rc, rel', r')"
        using upd live True pin notfree sch move by (simp add: updateRecord_def Let_def)
      then obtain result rel1 where
        del: "deleteRecord PAGE_SIZE ?rel1 (id' rcd) = Inr (result, rel1)"
        by (cases "deleteRecord PAGE_SIZE ?rel1 (id' rcd)") auto
      have live1: "managementData ?rel1 = Live (m\<lparr>bm := pool\<rparr>)" by simp
      obtain m1 where m1: "managementData rel1 = Live m1"
        "numDataPages m1 = numDataPages m"
        "length (pageDirectory m1) = length (pageDirectory m)"
        "\<forall>k. recordCount (pageDirectory m1 ! k) = recordCount (pageDirectory m ! k)"
        using deleteRecord_recordCount[OF del live1] by (auto simp: numDataPages_def)
      show ?thesis
      proof (cases "result = RC_OK")
        case False
        then have "rel' = rel1" using step del by simp
        then show ?thesis using m1 by auto
      next
        case True
        then have ins: "insertRecord PAGE_SIZE rel1 rcd = Inr (rc, rel', r')"
          using step del by simp
        have p1: "p < numDataPages m1" using p m1 by simp
        have len1: "nat (numDataPages m1) \<le> length (pageDirectory m1)" using len m1 by simp
        from insertRecord_recordCount[OF ins m1(1) p(1) p1 len1] m1(4)
        show ?thesis by auto
      qed
    qed
  qed
qed


text \<open>
  C9. For an open table whose directory array holds an entry for each of its data pages,
  and a data page \<open>p\<close>: a \<^verbatim>\<open>deleteRecord\<close> that returns leaves \<open>recordCount\<close> of \<open>p\<close> as
  it was; an \<^verbatim>\<open>insertRecord\<close> that returns leaves it as it was or adds one, and adds one
  only when the new record got the slot position \<open>recordCount\<close>, one past the positions
  allocated so far, on that page (no tombstoned slot was reused); an \<^verbatim>\<open>updateRecord\<close>
  that returns does not decrease it.
\<close>

theorem recordCount_nondecreasing:
  assumes "managementData rel = Live m"
    and "nat (numDataPages m) \<le> length (pageDirectory m)"
    and "0 \<le> p" "p < numDataPages m"
  shows "(\<forall>rid rc rel'. deleteRecord PAGE_SIZE rel rid = Inr (rc, rel') \<longrightarrow>
            (\<exists>m'. managementData rel' = Live m'
                \<and> recordCount (pageDirectory m' ! nat p) = recordCount (pageDirectory m ! nat p)))
       \<and> (\<forall>rcd rc rel' r'. insertRecord PAGE_SIZE rel rcd = Inr (rc, rel', r') \<longrightarrow>
            (\<exists>m'. managementData rel' = Live m'
                \<and> (recordCount (pageDirectory m' ! nat p) = recordCount (pageDirectory m ! nat p)
                   \<or> recordCount (pageDirectory m' ! nat p)
                        = recordCount (pageDirectory m ! nat p) + 1
                     \<and> id' r' = \<lparr>page = pageID (pageDirectory m ! nat p),
                                   slot = recordCount (pageDirectory m ! nat p)\<rparr>)))
       \<and> (\<forall>rcd rc rel' r'. updateRecord PAGE_SIZE rel rcd = Inr (rc, rel', r') \<longrightarrow>
            (\<exists>m'. managementData rel' = Live m'
                \<and> recordCount (pageDirectory m ! nat p) \<le> recordCount (pageDirectory m' ! nat p)))"
proof (intro conjI allI impI)
  fix rid rc rel'
  assume "deleteRecord PAGE_SIZE rel rid = Inr (rc, rel')"
  from deleteRecord_recordCount[OF this assms(1)]
  show "\<exists>m'. managementData rel' = Live m'
          \<and> recordCount (pageDirectory m' ! nat p) = recordCount (pageDirectory m ! nat p)"
    by auto
next
  fix rcd rc rel' r'
  assume "insertRecord PAGE_SIZE rel rcd = Inr (rc, rel', r')"
  from insertRecord_recordCount[OF this assms(1) assms(3) assms(4) assms(2)]
  show "\<exists>m'. managementData rel' = Live m'
          \<and> (recordCount (pageDirectory m' ! nat p) = recordCount (pageDirectory m ! nat p)
             \<or> recordCount (pageDirectory m' ! nat p) = recordCount (pageDirectory m ! nat p) + 1
               \<and> id' r' = \<lparr>page = pageID (pageDirectory m ! nat p),
                             slot = recordCount (pageDirectory m ! nat p)\<rparr>)"
    by auto
next
  fix rcd rc rel' r'
  assume "updateRecord PAGE_SIZE rel rcd = Inr (rc, rel', r')"
  from updateRecord_recordCount[OF this assms(1) assms(3) assms(4) assms(2)]
  show "\<exists>m'. managementData rel' = Live m'
          \<and> recordCount (pageDirectory m ! nat p) \<le> recordCount (pageDirectory m' ! nat p)"
    by auto
qed

theorem recordCount_nondecreasing_witness:
  "\<exists>m rel1 m1 rel2 r2 m2 rel3 r3 m3.
     managementData filledTable = Live m
     \<and> deleteRecord 4096 filledTable \<lparr>page = 0, slot = 0\<rparr> = Inr (RC_OK, rel1)
     \<and> managementData rel1 = Live m1
     \<and> recordCount (pageDirectory m1 ! nat 0) = recordCount (pageDirectory m ! nat 0)
     \<and> insertRecord 4096 filledTable (emptyRecord\<lparr>data := Some (person 2 98)\<rparr>)
           = Inr (RC_OK, rel2, r2)
     \<and> managementData rel2 = Live m2
     \<and> recordCount (pageDirectory m ! nat 0) \<le> recordCount (pageDirectory m2 ! nat 0)
     \<and> updateRecord 4096 filledTable \<lparr>id' = \<lparr>page = 0, slot = 0\<rparr>, data = Some (person 3 99)\<rparr>
           = Inr (RC_OK, rel3, r3)
     \<and> managementData rel3 = Live m3
     \<and> recordCount (pageDirectory m ! nat 0) \<le> recordCount (pageDirectory m3 ! nat 0)"
proof -
  have f0: "(case managementData filledTable of
               Live m \<Rightarrow> nat (numDataPages m) \<le> length (pageDirectory m) \<and> 0 < numDataPages m
             | _ \<Rightarrow> False)"
    by code_simp
  have f1: "map_sum (\<lambda>x. x) fst (deleteRecord 4096 filledTable \<lparr>page = 0, slot = 0\<rparr>) = Inr RC_OK"
    by code_simp
  have f2: "map_sum (\<lambda>x. x) fst
              (insertRecord 4096 filledTable (emptyRecord\<lparr>data := Some (person 2 98)\<rparr>))
            = Inr RC_OK"
    by code_simp
  have f3: "map_sum (\<lambda>x. x) fst
              (updateRecord 4096 filledTable
                 \<lparr>id' = \<lparr>page = 0, slot = 0\<rparr>, data = Some (person 3 99)\<rparr>)
            = Inr RC_OK"
    by code_simp
  obtain m where m: "managementData filledTable = Live m"
    and len: "nat (numDataPages m) \<le> length (pageDirectory m)"
    and pos: "0 < numDataPages m"
    using f0 by (cases "managementData filledTable") auto
  obtain rel1 where d: "deleteRecord 4096 filledTable \<lparr>page = 0, slot = 0\<rparr> = Inr (RC_OK, rel1)"
    using f1 by (cases "deleteRecord 4096 filledTable \<lparr>page = 0, slot = 0\<rparr>") auto
  obtain rel2 r2 where i: "insertRecord 4096 filledTable (emptyRecord\<lparr>data := Some (person 2 98)\<rparr>)
                             = Inr (RC_OK, rel2, r2)"
    using f2
    by (cases "insertRecord 4096 filledTable (emptyRecord\<lparr>data := Some (person 2 98)\<rparr>)") auto
  obtain rel3 r3 where u: "updateRecord 4096 filledTable
                             \<lparr>id' = \<lparr>page = 0, slot = 0\<rparr>, data = Some (person 3 99)\<rparr>
                           = Inr (RC_OK, rel3, r3)"
    using f3
    by (cases "updateRecord 4096 filledTable
                 \<lparr>id' = \<lparr>page = 0, slot = 0\<rparr>, data = Some (person 3 99)\<rparr>") auto
  have p: "(0::int) \<le> 0" by simp
  note mono = recordCount_nondecreasing [OF m len p pos, of 4096]
  from mono [THEN conjunct1, rule_format, OF d]
  obtain m1 where m1: "managementData rel1 = Live m1"
    "recordCount (pageDirectory m1 ! nat 0) = recordCount (pageDirectory m ! nat 0)"
    by (elim exE conjE)
  from mono [THEN conjunct2, THEN conjunct1, rule_format, OF i]
  obtain m2 where m2: "managementData rel2 = Live m2"
    and m2': "recordCount (pageDirectory m2 ! nat 0) = recordCount (pageDirectory m ! nat 0)
         \<or> recordCount (pageDirectory m2 ! nat 0) = recordCount (pageDirectory m ! nat 0) + 1
           \<and> id' r2 = \<lparr>page = pageID (pageDirectory m ! nat 0),
                         slot = recordCount (pageDirectory m ! nat 0)\<rparr>"
    by (elim exE conjE)
  have m2'': "recordCount (pageDirectory m ! nat 0) \<le> recordCount (pageDirectory m2 ! nat 0)"
    using m2' by linarith
  from mono [THEN conjunct2, THEN conjunct2, rule_format, OF u]
  obtain m3 where m3: "managementData rel3 = Live m3"
    "recordCount (pageDirectory m ! nat 0) \<le> recordCount (pageDirectory m3 ! nat 0)"
    by (elim exE conjE)
  show ?thesis
    apply (rule exI [of _ m], rule exI [of _ rel1], rule exI [of _ m1])
    apply (rule exI [of _ rel2], rule exI [of _ r2], rule exI [of _ m2])
    apply (rule exI [of _ rel3], rule exI [of _ r3], rule exI [of _ m3])
    apply (intro conjI)
    apply (rule m, rule d, rule m1(1), rule m1(2), rule i, rule m2, rule m2'', rule u,
           rule m3(1), rule m3(2))
    done
qed


section \<open>Tables that the operations return\<close>

subsection \<open>The pool and the blocks of the file\<close>













subsection \<open>Reading the directory image back\<close>








subsection \<open>The operations keep a table well formed\<close>























subsection \<open>Every open table is well formed\<close>




lemma getRecord_reachable:
  assumes "reachable P sch rel" "getRecord rel rid rcd = Inr (rc, rel', r')"
  shows "reachable P sch rel'"
proof (cases "managementData rel")
  case Null
  then show ?thesis using assms by (simp add: getRecord_def)
next
  case Freed
  then show ?thesis using assms by (simp add: getRecord_def)
next
  case (Live m)
  let ?pn = "dataPageNum m (page rid)"
  have "rel' = rel \<or> rel' = rel\<lparr>managementData := Live (m\<lparr>bm := fst (pinPage (bm m) (name rel) ?pn)\<rparr>)\<rparr>"
    using assms(2) Live
    by (auto simp: getRecord_def Let_def split_def split: if_splits ptr.splits)
  then show ?thesis
    using assms(1) reachable.pinned[OF assms(1) Live, of ?pn] by auto
qed



lemma scanPages_reachable:
  "scanPages PS ev sch' cond f pd n pool cp cs r = Inr (rc, pool', cp', cs', r') \<Longrightarrow>
   name rel = f \<Longrightarrow>
   reachable P sch (rel\<lparr>managementData := Live (m\<lparr>bm := pool\<rparr>)\<rparr>) \<Longrightarrow>
   reachable P sch (rel\<lparr>managementData := Live (m\<lparr>bm := pool'\<rparr>)\<rparr>)"
proof (induction PS ev sch' cond f pd n pool cp cs r rule: scanPages.induct)
  case (1 PAGE_SIZE ev sch' cond f pd n pool cp cs rcd)
  show ?case
  proof (cases "cp < n")
    case False
    then have "pool' = pool" using "1.prems"(1) by (subst (asm) scanPages.simps) simp
    then show ?thesis using "1.prems"(3) by simp
  next
    case True
    obtain pool1 pageData where pin: "pinPage pool f (scanPageNum PAGE_SIZE cp) = (pool1, pageData)"
      by (cases "pinPage pool f (scanPageNum PAGE_SIZE cp)") auto
    let ?rel = "rel\<lparr>managementData := Live (m\<lparr>bm := pool\<rparr>)\<rparr>"
    have "reachable P sch
            (?rel\<lparr>managementData :=
                    Live ((m\<lparr>bm := pool\<rparr>)\<lparr>bm := fst (pinPage (bm (m\<lparr>bm := pool\<rparr>)) (name ?rel)
                                                        (scanPageNum PAGE_SIZE cp))\<rparr>)\<rparr>)"
      by (rule reachable.pinned[OF "1.prems"(3)]) simp
    then have r1: "reachable P sch (rel\<lparr>managementData := Live (m\<lparr>bm := pool1\<rparr>)\<rparr>)"
      using pin "1.prems"(2) by simp
    let ?ss = "scanSlots ev sch' cond pageData (recordCount (pd ! nat cp)) (computeRecordSize sch') cp cs rcd"
    show ?thesis
    proof (cases ?ss)
      case (Hit s r1')
      then have "pool' = pool1"
        using "1.prems"(1) True pin by (subst (asm) scanPages.simps) simp
      then show ?thesis using r1 by simp
    next
      case (Miss r1')
      then have "scanPages PAGE_SIZE ev sch' cond f pd n pool1 (cp + 1) 0 r1'
                   = Inr (rc, pool', cp', cs', r')"
        using "1.prems"(1) True pin by (subst (asm) scanPages.simps) simp
      from "1.IH"[OF True refl pin[symmetric] refl Miss this "1.prems"(2) r1]
      show ?thesis .
    next
      case Crash
      then show ?thesis
        using "1.prems"(1) True pin by (subst (asm) scanPages.simps) simp
    qed
  qed
qed

lemma next_reachable:
  assumes "reachable P sch rel" "next' PS ev rel scan rcd = Inr (rc, rel', scan', r')"
  shows "reachable P sch rel'"
proof (cases "mgmtData scan")
  case Null
  then show ?thesis using assms by (simp add: next'_def)
next
  case Freed
  then show ?thesis using assms by (simp add: next'_def)
next
  case (Live si)
  from assms(2) Live obtain m where m: "managementData rel = Live m"
    by (cases "managementData rel") (simp_all add: next'_def)
  from assms(2) Live m obtain sch' where sch': "schema rel = Live sch'"
    by (cases "schema rel") (simp_all add: next'_def)
  let ?sp = "scanPages PS ev sch' (condition si) (name rel) (pageDirectory m)
               (numPages m - numPageDP m + 1) (bm m) (currentPage si) (currentSlot si) rcd"
  from assms(2) Live m sch' obtain pool' cp' cs' where
    sp: "?sp = Inr (rc, pool', cp', cs', r')"
    and rel': "rel' = rel\<lparr>managementData := Live (m\<lparr>bm := pool'\<rparr>)\<rparr>"
    by (cases ?sp) (auto simp: next'_def)
  have r: "rel\<lparr>managementData := Live (m\<lparr>bm := bm m\<rparr>)\<rparr> = rel"
    using m by (cases rel) simp
  have "reachable P sch (rel\<lparr>managementData := Live (m\<lparr>bm := bm m\<rparr>)\<rparr>)"
    using assms(1) by (simp only: r)
  from scanPages_reachable[OF sp refl this] show ?thesis by (simp add: rel')
qed


section \<open>The page numbers of a data page\<close>

text \<open>
  With pages of 40 bytes a directory page has room for two entries. After two inserts
  that each fill a data page, the third insert adds a data page, and
  \<^verbatim>\<open>savePageDirectoryToDisk\<close> copies \<open>8 + 3 * 16\<close> bytes into its buffer of 40: the
  call stops there.
\<close>

lemma insert_past_capacity_faults:
  "(case createAndOpen 40 wideSchema of
      None \<Rightarrow> None
    | Some rel \<Rightarrow>
        (case runCalls 40 rel [Insert (wide 1), Insert (wide 2)] of
           None \<Rightarrow> None
         | Some (rel1, rids) \<Rightarrow>
             Some (counters rel1,
                   map_sum (\<lambda>flt. flt) fst
                     (insertRecord 40 rel1 (emptyRecord\<lparr>data := Some (wide 3)\<rparr>)))))
   = Some (Some (2, 1), Inl OutOfBounds)"
  by code_simp



section \<open>Record identifiers in an open table\<close>




section \<open>A scan with a null condition\<close>















end
